theory Spec2Isabelle
  imports Complex_Main "HOL-Library.Word" "HOL-Library.Monad_Syntax"
begin

section \<open>WaveForge: the wavetable engine\<close>

text \<open>
  A shallow embedding of the signal-processing core of WaveForge: the generators,
  normaliser and interpolator and the WAV encoder of \<^verbatim>\<open>utils/audioUtils.ts\<close>, the
  brush editor of \<^verbatim>\<open>components/WaveformCanvas.tsx\<close> and the frame store kept in
  \<^verbatim>\<open>App.tsx\<close>. Definitions come first and keep the names of the source.
\<close>

subsection \<open>JavaScript numbers\<close>

text \<open>
  A JavaScript number is an IEEE-754 double. The model keeps the three kinds of
  non-finite value apart from the finite ones, because the code tests for them
  (\<^verbatim>\<open>isNaN\<close>, comparisons that are false on NaN) and because an undefined array
  element turns into NaN in arithmetic. A finite value is a real number: rounding,
  overflow of finite arithmetic to an infinity and the sign of zero are left out.
\<close>

datatype jsnum = NaN | PInf | NInf | Fin real

definition FRAME_SIZE :: nat where
  "FRAME_SIZE = 2048"

definition MAX_FRAMES :: nat where
  "MAX_FRAMES = 256"

definition isNaN :: "jsnum \<Rightarrow> bool" where
  "isNaN v = (v = NaN)"

text \<open>\<^verbatim>\<open>a > b\<close>: false as soon as one side is NaN.\<close>

fun js_gt :: "jsnum \<Rightarrow> jsnum \<Rightarrow> bool" where
  "js_gt NaN b = False"
| "js_gt a NaN = False"
| "js_gt PInf PInf = False"
| "js_gt PInf b = True"
| "js_gt NInf b = False"
| "js_gt (Fin a) PInf = False"
| "js_gt (Fin a) NInf = True"
| "js_gt (Fin a) (Fin b) = (a > b)"

definition js_lt :: "jsnum \<Rightarrow> jsnum \<Rightarrow> bool" where
  "js_lt a b = js_gt b a"

fun js_neg :: "jsnum \<Rightarrow> jsnum" where
  "js_neg NaN = NaN"
| "js_neg PInf = NInf"
| "js_neg NInf = PInf"
| "js_neg (Fin a) = Fin (- a)"

fun js_abs :: "jsnum \<Rightarrow> jsnum" where
  "js_abs NaN = NaN"
| "js_abs PInf = PInf"
| "js_abs NInf = PInf"
| "js_abs (Fin a) = Fin \<bar>a\<bar>"

fun js_add :: "jsnum \<Rightarrow> jsnum \<Rightarrow> jsnum" where
  "js_add NaN b = NaN"
| "js_add a NaN = NaN"
| "js_add PInf NInf = NaN"
| "js_add NInf PInf = NaN"
| "js_add PInf b = PInf"
| "js_add NInf b = NInf"
| "js_add (Fin a) PInf = PInf"
| "js_add (Fin a) NInf = NInf"
| "js_add (Fin a) (Fin b) = Fin (a + b)"

definition js_sub :: "jsnum \<Rightarrow> jsnum \<Rightarrow> jsnum" where
  "js_sub a b = js_add a (js_neg b)"

text \<open>An infinity times zero is NaN; otherwise the sign rule.\<close>

fun js_mul :: "jsnum \<Rightarrow> jsnum \<Rightarrow> jsnum" where
  "js_mul NaN b = NaN"
| "js_mul a NaN = NaN"
| "js_mul PInf PInf = PInf"
| "js_mul PInf NInf = NInf"
| "js_mul NInf PInf = NInf"
| "js_mul NInf NInf = PInf"
| "js_mul PInf (Fin b) = (if b = 0 then NaN else if 0 < b then PInf else NInf)"
| "js_mul NInf (Fin b) = (if b = 0 then NaN else if 0 < b then NInf else PInf)"
| "js_mul (Fin a) PInf = (if a = 0 then NaN else if 0 < a then PInf else NInf)"
| "js_mul (Fin a) NInf = (if a = 0 then NaN else if 0 < a then NInf else PInf)"
| "js_mul (Fin a) (Fin b) = Fin (a * b)"

text \<open>Division; a zero divisor counts as positive zero.\<close>

fun js_div :: "jsnum \<Rightarrow> jsnum \<Rightarrow> jsnum" where
  "js_div NaN b = NaN"
| "js_div a NaN = NaN"
| "js_div PInf PInf = NaN"
| "js_div PInf NInf = NaN"
| "js_div NInf PInf = NaN"
| "js_div NInf NInf = NaN"
| "js_div PInf (Fin b) = (if 0 \<le> b then PInf else NInf)"
| "js_div NInf (Fin b) = (if 0 \<le> b then NInf else PInf)"
| "js_div (Fin a) PInf = Fin 0"
| "js_div (Fin a) NInf = Fin 0"
| "js_div (Fin a) (Fin b) =
     (if b = 0 then (if a = 0 then NaN else if 0 < a then PInf else NInf) else Fin (a / b))"

text \<open>
  A \<^verbatim>\<open>Float32Array\<close> is a list of numbers. Reading past its end gives
  \<^verbatim>\<open>undefined\<close>, which is NaN as soon as it enters arithmetic or is stored into a
  typed array; writing past its end does nothing.
\<close>

type_synonym buffer = "jsnum list"

definition ta_get :: "buffer \<Rightarrow> int \<Rightarrow> jsnum" where
  "ta_get b i = (if 0 \<le> i \<and> i < int (length b) then b ! nat i else NaN)"

definition ta_set :: "buffer \<Rightarrow> int \<Rightarrow> jsnum \<Rightarrow> buffer" where
  "ta_set b i v = (if 0 \<le> i \<and> i < int (length b) then b[nat i := v] else b)"

subsection \<open>Generators\<close>

text \<open>\<^verbatim>\<open>generateSine\<close>: \<^verbatim>\<open>buffer[i] = Math.sin((i / FRAME_SIZE) * Math.PI * 2)\<close>.\<close>

definition generateSine :: buffer where
  "generateSine = map (\<lambda>i. Fin (sin ((real i / real FRAME_SIZE) * pi * 2))) [0..<FRAME_SIZE]"

text \<open>
  \<^verbatim>\<open>generateFromFormula\<close>. \<^verbatim>\<open>new Function('x', 't', 'i', 'n', ...)\<close> on the text \<^verbatim>\<open>return\<close> plus the formula
  is the host's compiler: it is a parameter \<open>newFunction\<close>, \<open>None\<close> when it throws
  a syntax error. One call of the compiled function either throws or returns; what it
  returns is read as a number by \<^verbatim>\<open>isNaN\<close>, by the comparisons and by the store into
  the typed array, so the model takes the returned value as that number (a value
  whose conversion throws, such as a BigInt, counts as a throw).
\<close>

datatype jsresult = Throws | Returns jsnum

type_synonym evaluator = "real \<Rightarrow> real \<Rightarrow> nat \<Rightarrow> nat \<Rightarrow> jsresult"

text \<open>The call \<^verbatim>\<open>func(x, t, i, FRAME_SIZE)\<close> of iteration \<open>i\<close>.\<close>

definition evalAt :: "evaluator \<Rightarrow> nat \<Rightarrow> jsresult" where
  "evalAt func i =
     (let t = real i / real FRAME_SIZE; x = t * pi * 2 in func x t i FRAME_SIZE)"

text \<open>
  The three statements under the comment "Hard clip to prevent massive numbers":
  \<^verbatim>\<open>if (isNaN(val)) val = 0; if (val > 1) val = 1; if (val < -1) val = -1;\<close>
\<close>

definition hardClip :: "jsnum \<Rightarrow> jsnum" where
  "hardClip val =
     (let v1 = (if isNaN val then Fin 0 else val);
          v2 = (if js_gt v1 (Fin 1) then Fin 1 else v1);
          v3 = (if js_lt v2 (Fin (- 1)) then Fin (- 1) else v2)
      in v3)"

text \<open>
  The \<^verbatim>\<open>for\<close> loop of \<^verbatim>\<open>generateFromFormula\<close>. It stands inside the
  \<^verbatim>\<open>try\<close> block, so a throw leaves the loop: \<open>None\<close>.
\<close>

function formulaLoop :: "evaluator \<Rightarrow> nat \<Rightarrow> buffer \<Rightarrow> buffer option" where
  "formulaLoop func i buf =
     (if i < FRAME_SIZE then
        (case evalAt func i of
           Throws \<Rightarrow> None
         | Returns val \<Rightarrow> formulaLoop func (i + 1) (ta_set buf (int i) (hardClip val)))
      else Some buf)"
  by pat_completeness auto
termination
  by (relation "measure (\<lambda>(func, i, buf). FRAME_SIZE - i)") auto

text \<open>The \<^verbatim>\<open>catch\<close> block returns \<^verbatim>\<open>generateSine()\<close>.\<close>

definition generateFromFormula :: "(string \<Rightarrow> evaluator option) \<Rightarrow> string \<Rightarrow> buffer" where
  "generateFromFormula newFunction formula =
     (case newFunction formula of
        None \<Rightarrow> generateSine
      | Some func \<Rightarrow>
          (case formulaLoop func 0 (replicate FRAME_SIZE (Fin 0)) of
             None \<Rightarrow> generateSine
           | Some buf \<Rightarrow> buf))"

subsection \<open>Normaliser and additive synthesis\<close>

text \<open>
  \<^verbatim>\<open>normalizeBuffer\<close>. The first loop keeps the largest \<^verbatim>\<open>Math.abs(buffer[i])\<close>
  seen so far; its comparison is false on NaN, so a NaN sample never becomes the
  maximum. The second loop runs only when the maximum exceeds 0.0001.
\<close>

definition maxAmpOf :: "buffer \<Rightarrow> jsnum" where
  "maxAmpOf buf =
     fold (\<lambda>v maxAmp. let a = js_abs v in if js_gt a maxAmp then a else maxAmp) buf (Fin 0)"

definition normalizeBuffer :: "buffer \<Rightarrow> buffer" where
  "normalizeBuffer buf =
     (let maxAmp = maxAmpOf buf in
      if js_gt maxAmp (Fin 0.0001) then
        (let scaler = js_div (Fin 1.0) maxAmp in map (\<lambda>v. js_mul v scaler) buf)
      else buf)"

text \<open>
  \<^verbatim>\<open>generateFromHarmonics\<close>. The inner loop adds one harmonic to every sample:
  \<^verbatim>\<open>buffer[i] += amp * Math.sin((i / FRAME_SIZE) * Math.PI * 2 * harmonicNum)\<close>.
  The outer loop walks the amplitudes with their index \<open>h\<close> and skips an amplitude
  that is \<^verbatim>\<open>=== 0\<close>.
\<close>

definition addHarmonic :: "nat \<Rightarrow> jsnum \<Rightarrow> buffer \<Rightarrow> buffer" where
  "addHarmonic h amp buf =
     (let harmonicNum = h + 1 in
      map (\<lambda>i. js_add (ta_get buf (int i))
                 (js_mul amp (Fin (sin ((real i / real FRAME_SIZE) * pi * 2 * real harmonicNum)))))
          [0..<FRAME_SIZE])"

fun harmonicsLoop :: "jsnum list \<Rightarrow> nat \<Rightarrow> buffer \<Rightarrow> buffer" where
  "harmonicsLoop [] h buf = buf"
| "harmonicsLoop (amp # rest) h buf =
     (if amp = Fin 0 then harmonicsLoop rest (h + 1) buf
      else harmonicsLoop rest (h + 1) (addHarmonic h amp buf))"

definition generateFromHarmonics :: "jsnum list \<Rightarrow> buffer" where
  "generateFromHarmonics harmonics =
     normalizeBuffer (harmonicsLoop harmonics 0 (replicate FRAME_SIZE (Fin 0)))"

text \<open>
  The reference of the specification, in its words: sample \<open>i\<close> is the sum over
  \<open>h\<close> in \<open>[0, N)\<close> of \<open>amplitude[h] * sin(2 * pi * (h + 1) * i / FRAME_SIZE)\<close>, every
  term included, summed in the order of \<open>h\<close>; the result goes through the normaliser.
\<close>

definition harmonicSum :: "jsnum list \<Rightarrow> nat \<Rightarrow> jsnum" where
  "harmonicSum amplitude i =
     foldl js_add (Fin 0)
       (map (\<lambda>h. js_mul (amplitude ! h)
                    (Fin (sin (2 * pi * real (h + 1) * real i / real FRAME_SIZE))))
            [0..<length amplitude])"

definition generateFromHarmonics_naive :: "jsnum list \<Rightarrow> buffer" where
  "generateFromHarmonics_naive amplitude =
     normalizeBuffer (map (harmonicSum amplitude) [0..<FRAME_SIZE])"

subsection \<open>Interpolation\<close>

text \<open>
  \<^verbatim>\<open>interpolateFrames\<close>:
  \<^verbatim>\<open>result[i] = frameA[i] * (1 - mix) + frameB[i] * mix\<close> for every \<open>i\<close> below
  \<^verbatim>\<open>FRAME_SIZE\<close>, whatever the lengths of the two frames.
\<close>

definition interpolateFrames :: "buffer \<Rightarrow> buffer \<Rightarrow> jsnum \<Rightarrow> buffer" where
  "interpolateFrames frameA frameB mix =
     map (\<lambda>i. js_add (js_mul (ta_get frameA (int i)) (js_sub (Fin 1) mix))
                      (js_mul (ta_get frameB (int i)) mix))
         [0..<FRAME_SIZE]"

text \<open>A sample that is neither NaN nor an infinity.\<close>

definition finite_sample :: "jsnum \<Rightarrow> bool" where
  "finite_sample v = (case v of Fin r \<Rightarrow> True | _ \<Rightarrow> False)"

subsection \<open>WAV export\<close>

text \<open>
  The \<^verbatim>\<open>ArrayBuffer\<close> under the \<^verbatim>\<open>DataView\<close> is a list of bytes. A setter of the
  view writes a group of bytes at an offset and throws a RangeError when the group
  does not fit: \<open>None\<close>. Integers are reduced modulo the width of the field, as the
  setters do, and the flag is the setters' \<^verbatim>\<open>littleEndian\<close> argument.
\<close>

type_synonym bytes = "8 word list"

definition le16 :: "16 word \<Rightarrow> bytes" where
  "le16 w = [ucast w, ucast (drop_bit 8 w)]"

definition le32 :: "32 word \<Rightarrow> bytes" where
  "le32 w = [ucast w, ucast (drop_bit 8 w), ucast (drop_bit 16 w), ucast (drop_bit 24 w)]"

definition setBytes :: "bytes \<Rightarrow> nat \<Rightarrow> bytes \<Rightarrow> bytes option" where
  "setBytes view byteOffset bs =
     (if byteOffset + length bs \<le> length view
      then Some (take byteOffset view @ bs @ drop (byteOffset + length bs) view)
      else None)"

definition setUint8 :: "bytes \<Rightarrow> nat \<Rightarrow> nat \<Rightarrow> bytes option" where
  "setUint8 view byteOffset v = setBytes view byteOffset [word_of_nat v]"

definition setUint16 :: "bytes \<Rightarrow> nat \<Rightarrow> nat \<Rightarrow> bool \<Rightarrow> bytes option" where
  "setUint16 view byteOffset v littleEndian =
     setBytes view byteOffset
       (if littleEndian then le16 (word_of_nat v) else rev (le16 (word_of_nat v)))"

definition setUint32 :: "bytes \<Rightarrow> nat \<Rightarrow> nat \<Rightarrow> bool \<Rightarrow> bytes option" where
  "setUint32 view byteOffset v littleEndian =
     setBytes view byteOffset
       (if littleEndian then le32 (word_of_nat v) else rev (le32 (word_of_nat v)))"

text \<open>
  \<^verbatim>\<open>setFloat32\<close> stores the IEEE-754 binary32 pattern of a number. The encoding
  belongs to the host, not to this repository: it is the parameter \<open>float32Bits\<close>.
\<close>

definition setFloat32 ::
  "(jsnum \<Rightarrow> 32 word) \<Rightarrow> bytes \<Rightarrow> nat \<Rightarrow> jsnum \<Rightarrow> bool \<Rightarrow> bytes option" where
  "setFloat32 float32Bits view byteOffset x littleEndian =
     setBytes view byteOffset
       (if littleEndian then le32 (float32Bits x) else rev (le32 (float32Bits x)))"

text \<open>
  \<^verbatim>\<open>writeString\<close>: \<^verbatim>\<open>view.setUint8(offset + i, string.charCodeAt(i))\<close> for every
  character; the recursion moves the offset instead of the index.
\<close>

fun writeString :: "bytes \<Rightarrow> nat \<Rightarrow> string \<Rightarrow> bytes option" where
  "writeString view offset [] = Some view"
| "writeString view offset (c # cs) =
     (case setUint8 view offset (of_char c) of
        None \<Rightarrow> None
      | Some view' \<Rightarrow> writeString view' (offset + 1) cs)"

text \<open>
  The sample loops of \<^verbatim>\<open>exportWavetableToWav\<close>: for every frame, for every \<open>i\<close>
  below \<^verbatim>\<open>FRAME_SIZE\<close>, \<^verbatim>\<open>view.setFloat32(offset, frame[i], true); offset += 4\<close>.
  The state is the view and the offset.
\<close>

fun sampleLoop ::
  "(jsnum \<Rightarrow> 32 word) \<Rightarrow> buffer \<Rightarrow> nat list \<Rightarrow> bytes \<times> nat \<Rightarrow> (bytes \<times> nat) option" where
  "sampleLoop float32Bits frame [] s = Some s"
| "sampleLoop float32Bits frame (i # is) s =
     (case setFloat32 float32Bits (fst s) (snd s) (ta_get frame (int i)) True of
        None \<Rightarrow> None
      | Some view' \<Rightarrow> sampleLoop float32Bits frame is (view', snd s + 4))"

fun framesLoop ::
  "(jsnum \<Rightarrow> 32 word) \<Rightarrow> buffer list \<Rightarrow> bytes \<times> nat \<Rightarrow> (bytes \<times> nat) option" where
  "framesLoop float32Bits [] s = Some s"
| "framesLoop float32Bits (frame # rest) s =
     (case sampleLoop float32Bits frame [0..<FRAME_SIZE] s of
        None \<Rightarrow> None
      | Some s' \<Rightarrow> framesLoop float32Bits rest s')"

text \<open>\<^verbatim>\<open>exportWavetableToWav\<close>; the result is the content of the Blob.\<close>

definition exportWavetableToWav :: "(jsnum \<Rightarrow> 32 word) \<Rightarrow> buffer list \<Rightarrow> bytes option" where
  "exportWavetableToWav float32Bits frameList =
     (let numFrames = length frameList;
          numChannels = 1;
          sampleRate = 44100;
          bitsPerSample = 32;
          byteRate = (sampleRate * numChannels * bitsPerSample) div 8;
          blockAlign = (numChannels * bitsPerSample) div 8;
          dataSize = numFrames * FRAME_SIZE * numChannels * 4;
          buffer = replicate (44 + dataSize) 0
      in do {
        view \<leftarrow> writeString buffer 0 ''RIFF'';
        view \<leftarrow> setUint32 view 4 (36 + dataSize) True;
        view \<leftarrow> writeString view 8 ''WAVE'';
        view \<leftarrow> writeString view 12 ''fmt '';
        view \<leftarrow> setUint32 view 16 16 True;
        view \<leftarrow> setUint16 view 20 3 True;
        view \<leftarrow> setUint16 view 22 numChannels True;
        view \<leftarrow> setUint32 view 24 sampleRate True;
        view \<leftarrow> setUint32 view 28 byteRate True;
        view \<leftarrow> setUint16 view 32 blockAlign True;
        view \<leftarrow> setUint16 view 34 bitsPerSample True;
        view \<leftarrow> writeString view 36 ''data'';
        view \<leftarrow> setUint32 view 40 dataSize True;
        s \<leftarrow> framesLoop float32Bits frameList (view, 44);
        Some (fst s)
      })"

text \<open>
  For the statements about the encoder: the bytes of an ASCII tag, the bytes of one
  frame as the sample loop writes them, and a view whose first part is written and
  whose rest is still zero.
\<close>

definition asciiBytes :: "string \<Rightarrow> bytes" where
  "asciiBytes s = map (\<lambda>c. word_of_nat (of_char c)) s"

definition frameBytes :: "(jsnum \<Rightarrow> 32 word) \<Rightarrow> buffer \<Rightarrow> bytes" where
  "frameBytes float32Bits frame =
     concat (map (\<lambda>i. le32 (float32Bits (ta_get frame (int i)))) [0..<FRAME_SIZE])"

definition filled :: "bytes \<Rightarrow> nat \<Rightarrow> bytes" where
  "filled pre n = pre @ replicate n 0"

subsection \<open>The brush editor\<close>

text \<open>
  \<^verbatim>\<open>getCursorPosition\<close>, from the pointer's client coordinates and the canvas
  rectangle (left, top, width, height). On a rectangle of width zero the source
  divides zero by zero and the index is NaN, which is no index at all: \<open>None\<close>. On
  a rectangle of height zero the amplitude is NaN for the same reason.
\<close>

definition getCursorPosition ::
  "real \<times> real \<Rightarrow> real \<times> real \<times> real \<times> real \<Rightarrow> (int \<times> jsnum) option" where
  "getCursorPosition client rect =
     (let clientX = fst client; clientY = snd client;
          left = fst rect; top = fst (snd rect);
          width = fst (snd (snd rect)); height = snd (snd (snd rect));
          x = max 0 (min (clientX - left) width);
          y = max 0 (min (clientY - top) height);
          amp = (if height = 0 then NaN else Fin (- 1 * (((y / height) * 2) - 1)))
      in if width = 0 then None
         else Some (\<lfloor>(x / width) * real FRAME_SIZE\<rfloor>, amp))"

definition brushSize :: int where
  "brushSize = 15"

text \<open>
  The body of the loop of \<^verbatim>\<open>applyBrush\<close> at offset \<open>i\<close>. The state is the buffer
  and a log of the indices at which the body reads and writes the buffer. The log is
  a ghost variable: the source has no counterpart, and the buffer does not depend on
  it.
\<close>

definition brushStep ::
  "int \<Rightarrow> jsnum \<Rightarrow> int \<Rightarrow> buffer \<times> int list \<Rightarrow> buffer \<times> int list" where
  "brushStep centerIndex amp i s =
     (let buf = fst s; idx = centerIndex + i in
      if idx \<ge> 0 \<and> idx < int FRAME_SIZE then
        (let falloff = Fin (1 - \<bar>real_of_int i\<bar> / real_of_int brushSize) in
         (ta_set buf idx
            (js_add (js_mul (ta_get buf idx) (js_sub (Fin 1) falloff)) (js_mul amp falloff)),
          snd s @ [idx]))
      else s)"

definition applyBrushLog :: "buffer \<Rightarrow> int \<Rightarrow> jsnum \<Rightarrow> buffer \<times> int list" where
  "applyBrushLog buf centerIndex amp =
     fold (brushStep centerIndex amp) [- brushSize..brushSize] (buf, [])"

definition applyBrush :: "buffer \<Rightarrow> int \<Rightarrow> jsnum \<Rightarrow> buffer" where
  "applyBrush buf centerIndex amp = fst (applyBrushLog buf centerIndex amp)"

text \<open>
  \<^verbatim>\<open>new Float32Array(src)\<close> copies a typed array; on \<^verbatim>\<open>undefined\<close> it is an empty
  array.
\<close>

definition newFloat32Array :: "buffer option \<Rightarrow> buffer" where
  "newFloat32Array src = (case src of None \<Rightarrow> [] | Some b \<Rightarrow> b)"

text \<open>
  The state of the canvas component: the \<^verbatim>\<open>isActive\<close> property, the
  \<^verbatim>\<open>isDrawing\<close> state, whether \<^verbatim>\<open>canvasRef.current\<close> is set, and the two refs
  \<^verbatim>\<open>prevPosRef\<close> and \<^verbatim>\<open>localDataRef\<close>. A handler receives the pointer sample that
  \<^verbatim>\<open>getCursorPosition\<close> returned; the new \<open>localData\<close> is what \<^verbatim>\<open>onChange\<close> is
  called with.
\<close>

record canvas =
  isActive :: bool
  isDrawing :: bool
  canvasMounted :: bool
  prevPos :: "(int \<times> jsnum) option"
  localData :: buffer

definition handleStart :: "canvas \<Rightarrow> int \<times> jsnum \<Rightarrow> canvas" where
  "handleStart st pos =
     (if \<not> isActive st then st
      else
        (let st1 = st\<lparr>isDrawing := True\<rparr> in
         if \<not> canvasMounted st then st1
         else
           (let index = fst pos; amp = snd pos;
                newData = newFloat32Array (Some (localData st));
                newData = applyBrush newData index amp
            in st1\<lparr>prevPos := Some (index, amp), localData := newData\<rparr>)))"

text \<open>The \<^verbatim>\<open>for (let i = 0; i <= steps; i++)\<close> loop of \<^verbatim>\<open>handleMove\<close>.\<close>

function moveLoop ::
  "buffer \<Rightarrow> int \<Rightarrow> int \<Rightarrow> int \<Rightarrow> jsnum \<Rightarrow> jsnum \<Rightarrow> int \<Rightarrow> buffer" where
  "moveLoop newData startIdx stepDir steps prevAmp currAmp i =
     (if i \<le> steps then
        (let idx = startIdx + (i * stepDir);
             t = Fin (real_of_int i / real_of_int steps);
             interpolatedAmp = js_add prevAmp (js_mul (js_sub currAmp prevAmp) t)
         in moveLoop (applyBrush newData idx interpolatedAmp)
              startIdx stepDir steps prevAmp currAmp (i + 1))
      else newData)"
  by pat_completeness auto
termination
  by (relation "measure (\<lambda>(newData, startIdx, stepDir, steps, prevAmp, currAmp, i).
        nat (steps + 1 - i))") auto

definition handleMove :: "canvas \<Rightarrow> int \<times> jsnum \<Rightarrow> canvas" where
  "handleMove st pos =
     (if \<not> isDrawing st \<or> \<not> isActive st then st
      else if \<not> canvasMounted st then st
      else
        (let currIndex = fst pos; currAmp = snd pos;
             newData = newFloat32Array (Some (localData st));
             newData =
               (case prevPos st of
                  Some prev \<Rightarrow>
                    (let startIdx = fst prev; endIdx = currIndex;
                         steps = \<bar>endIdx - startIdx\<bar>;
                         stepDir = (if endIdx > startIdx then 1 else - 1)
                     in if steps = 0 then applyBrush newData currIndex currAmp
                        else moveLoop newData startIdx stepDir steps (snd prev) currAmp 0)
                | None \<Rightarrow> applyBrush newData currIndex currAmp)
         in st\<lparr>prevPos := Some (currIndex, currAmp), localData := newData\<rparr>))"

definition handleEnd :: "canvas \<Rightarrow> canvas" where
  "handleEnd st = st\<lparr>isDrawing := False, prevPos := None\<rparr>"

text \<open>
  The brush applications of one move step in the words of the specification: with
  \<open>steps = |currIndex - prevIndex|\<close> positive, \<open>steps + 1\<close> applications, the \<open>i\<close>-th
  one index further from \<open>prevIndex\<close> towards \<open>currIndex\<close> than the one before and
  with amplitude \<open>prevAmp + (currAmp - prevAmp) * (i / steps)\<close>; with \<open>steps = 0\<close>,
  one application at \<open>currIndex\<close> with \<open>currAmp\<close>.
\<close>

definition dragApplications :: "int \<Rightarrow> jsnum \<Rightarrow> int \<Rightarrow> jsnum \<Rightarrow> (int \<times> jsnum) list" where
  "dragApplications prevIndex prevAmp currIndex currAmp =
     (let steps = \<bar>currIndex - prevIndex\<bar> in
      if steps > 0 then
        map (\<lambda>i. (prevIndex + i * sgn (currIndex - prevIndex),
                  js_add prevAmp
                    (js_mul (js_sub currAmp prevAmp) (Fin (real_of_int i / real_of_int steps)))))
            [0..steps]
      else [(currIndex, currAmp)])"

subsection \<open>The frame store\<close>

text \<open>
  The two pieces of state of \<^verbatim>\<open>App\<close> that hold the wavetable. A frame is held by
  its samples: the handlers never change a stored array in place (an edit puts a
  fresh array into the list), so a copy made with \<^verbatim>\<open>new Float32Array(...)\<close> is the
  list of the samples it copies. \<^verbatim>\<open>frames[currentIndex]\<close> is \<^verbatim>\<open>undefined\<close> outside
  the array.
\<close>

record store =
  frames :: "buffer list"
  currentIndex :: int

definition js_index :: "'a list \<Rightarrow> int \<Rightarrow> 'a option" where
  "js_index xs i = (if 0 \<le> i \<and> i < int (length xs) then Some (xs ! nat i) else None)"

definition initialStore :: store where
  "initialStore = \<lparr>frames = [generateSine], currentIndex = 0\<rparr>"

definition addFrame :: "store \<Rightarrow> store" where
  "addFrame st =
     (if length (frames st) \<ge> MAX_FRAMES then st
      else st\<lparr>frames := frames st @ [newFloat32Array (js_index (frames st) (currentIndex st))],
              currentIndex := int (length (frames st))\<rparr>)"

definition deleteFrame :: "store \<Rightarrow> store" where
  "deleteFrame st =
     (if length (frames st) \<le> 1 then st
      else
        (let newFrames =
               map snd (filter (\<lambda>(i, f). int i \<noteq> currentIndex st) (enumerate 0 (frames st)))
         in st\<lparr>frames := newFrames,
                 currentIndex := min (currentIndex st) (int (length newFrames) - 1)\<rparr>))"

text \<open>
  The \<^verbatim>\<open>onClick\<close> of the Duplicate button:
  \<^verbatim>\<open>setFrames([...frames, new Float32Array(frames[currentIndex])])\<close>.
\<close>

definition duplicateFrame :: "store \<Rightarrow> store" where
  "duplicateFrame st =
     st\<lparr>frames := frames st @ [newFloat32Array (js_index (frames st) (currentIndex st))]\<rparr>"

text \<open>
  Selecting a frame: the click handler of the 3D view clamps the index it computes
  (\<^verbatim>\<open>Math.max(0, Math.min(frames.length - 1, index))\<close>), and the range input offers
  the same interval.
\<close>

definition onSelectFrame :: "store \<Rightarrow> int \<Rightarrow> store" where
  "onSelectFrame st index =
     st\<lparr>currentIndex := max 0 (min (int (length (frames st)) - 1) index)\<rparr>"

text \<open>
  \<^verbatim>\<open>handleWaveformChange\<close>: \<^verbatim>\<open>next[currentIndex] = newData\<close> on a copy of the
  current array. The callback is made with \<^verbatim>\<open>useCallback\<close> and keeps the
  \<^verbatim>\<open>currentIndex\<close> of the render that made it; a caller that runs later (the
  debounce timer of the harmonic editor, the load events of an image) passes the
  cursor of that earlier render. This index is the first argument. At an index
  outside the array JavaScript would add holes or a property to the array, which a
  list of frames cannot hold: \<open>None\<close>.
\<close>

definition handleWaveformChange :: "int \<Rightarrow> store \<Rightarrow> buffer \<Rightarrow> store option" where
  "handleWaveformChange closedIndex st newData =
     (if 0 \<le> closedIndex \<and> closedIndex < int (length (frames st))
      then Some (st\<lparr>frames := (frames st)[nat closedIndex := newData]\<rparr>)
      else None)"

text \<open>\<^verbatim>\<open>morphBetween\<close>, the handler of "Morph All (Linear)".\<close>

definition morphBetween :: "store \<Rightarrow> store" where
  "morphBetween st =
     (if length (frames st) < 3 then st
      else
        (let firstFrame = frames st ! 0;
             lastFrame = frames st ! (length (frames st) - 1);
             count = length (frames st);
             newFrames = map (\<lambda>i. if i = 0 then firstFrame
                                   else if i = count - 1 then lastFrame
                                   else interpolateFrames firstFrame lastFrame
                                          (Fin (real i / real (count - 1))))
                             [0..<count]
         in st\<lparr>frames := newFrames\<rparr>))"


text \<open>
  \<^verbatim>\<open>a % n\<close> on integers: the remainder has the sign of \<open>a\<close>, and a zero divisor
  gives NaN, which is no index: \<open>None\<close>.
\<close>

definition js_rem :: "int \<Rightarrow> int \<Rightarrow> int option" where
  "js_rem a n = (if n = 0 then None else Some (sgn a * (\<bar>a\<bar> mod \<bar>n\<bar>)))"

text \<open>One firing of the interval whose callback closed over a table of \<open>n\<close> frames.\<close>

definition scanTick :: "nat \<Rightarrow> store \<Rightarrow> store option" where
  "scanTick n st =
     (case js_rem (currentIndex st + 1) (int n) of
        None \<Rightarrow> None
      | Some c \<Rightarrow> Some (st\<lparr>currentIndex := c\<rparr>))"

text \<open>The cursor is an index of the frame list.\<close>

definition cursor_valid :: "store \<Rightarrow> bool" where
  "cursor_valid st = (0 \<le> currentIndex st \<and> currentIndex st < int (length (frames st)))"


section \<open>Properties\<close>

subsection \<open>The formula generator\<close>

declare formulaLoop.simps [simp del]

lemma formulaLoop_throws:
  "i \<le> k \<Longrightarrow> k < FRAME_SIZE \<Longrightarrow> evalAt func k = Throws \<Longrightarrow> formulaLoop func i buf = None"
proof (induction func i buf rule: formulaLoop.induct)
  case (1 func i buf)
  show ?case
  proof (cases "evalAt func i")
    case Throws
    with 1 show ?thesis by (simp add: formulaLoop.simps [of func i])
  next
    case (Returns val)
    with 1 have "i \<noteq> k" by auto
    with 1 Returns show ?thesis by (simp add: formulaLoop.simps [of func i])
  qed
qed

text \<open>
  When no call throws, the loop ends with a buffer whose sample \<open>k\<close> is the clipped
  value of call \<open>k\<close>, whatever the other calls returned.
\<close>

lemma formulaLoop_returns:
  assumes "\<forall>k. i \<le> k \<and> k < FRAME_SIZE \<longrightarrow> evalAt func k \<noteq> Throws"
    and "length buf = FRAME_SIZE"
  shows "\<exists>out. formulaLoop func i buf = Some out \<and> length out = FRAME_SIZE \<and>
     (\<forall>k < FRAME_SIZE. out ! k = (if k < i then buf ! k else
         (case evalAt func k of Returns v \<Rightarrow> hardClip v | Throws \<Rightarrow> Fin 0)))"
  using assms
proof (induction func i buf rule: formulaLoop.induct)
  case (1 func i buf)
  show ?case
  proof (cases "i < FRAME_SIZE")
    case False
    then show ?thesis using 1(3) by (simp add: formulaLoop.simps [of func i])
  next
    case True
    with 1(2) obtain val where v: "evalAt func i = Returns val"
      by (cases "evalAt func i") auto
    let ?buf = "ta_set buf (int i) (hardClip val)"
    have len: "length ?buf = FRAME_SIZE"
      using 1(3) by (simp add: ta_set_def)
    have "\<exists>out. formulaLoop func (i + 1) ?buf = Some out \<and> length out = FRAME_SIZE \<and>
     (\<forall>k < FRAME_SIZE. out ! k = (if k < i + 1 then ?buf ! k else
         (case evalAt func k of Returns v \<Rightarrow> hardClip v | Throws \<Rightarrow> Fin 0)))"
      using 1(1) [OF True v] 1(2) len by simp
    then obtain out where o: "formulaLoop func (i + 1) ?buf = Some out"
      "length out = FRAME_SIZE"
      "\<forall>k < FRAME_SIZE. out ! k = (if k < i + 1 then ?buf ! k else
         (case evalAt func k of Returns v \<Rightarrow> hardClip v | Throws \<Rightarrow> Fin 0))" by blast
    have "formulaLoop func i buf = Some out"
      using True v o(1) by (simp add: formulaLoop.simps [of func i])
    moreover have "\<forall>k < FRAME_SIZE. out ! k = (if k < i then buf ! k else
         (case evalAt func k of Returns v \<Rightarrow> hardClip v | Throws \<Rightarrow> Fin 0))"
    proof (intro allI impI)
      fix k assume k: "k < FRAME_SIZE"
      show "out ! k = (if k < i then buf ! k else
         (case evalAt func k of Returns v \<Rightarrow> hardClip v | Throws \<Rightarrow> Fin 0))"
      proof (cases "k = i")
        case True
        then show ?thesis using o(3) k v 1(3) by (simp add: ta_set_def)
      next
        case False
        then show ?thesis using o(3) k 1(3) by (auto simp: ta_set_def nth_list_update)
      qed
    qed
    ultimately show ?thesis using o(2) by blast
  qed
qed

lemma hardClip_cases:
  "hardClip v = (case v of NaN \<Rightarrow> Fin 0 | PInf \<Rightarrow> Fin 1 | NInf \<Rightarrow> Fin (- 1)
                 | Fin r \<Rightarrow> Fin (max (- 1) (min 1 r)))"
  by (cases v) (auto simp: hardClip_def isNaN_def js_lt_def Let_def)

lemma generateFromFormula_no_throw:
  assumes "newFunction formula = Some func"
    and "\<forall>k < FRAME_SIZE. evalAt func k \<noteq> Throws"
    and "i < FRAME_SIZE"
    and "evalAt func i = Returns v"
  shows "generateFromFormula newFunction formula ! i = hardClip v"
proof -
  from formulaLoop_returns [of 0 func "replicate FRAME_SIZE (Fin 0)"] assms(2)
  obtain out where "formulaLoop func 0 (replicate FRAME_SIZE (Fin 0)) = Some out"
    and "\<forall>k < FRAME_SIZE. out ! k =
           (case evalAt func k of Returns v \<Rightarrow> hardClip v | Throws \<Rightarrow> Fin 0)"
    by auto
  then show ?thesis
    using assms(1,3,4) by (simp add: generateFromFormula_def)
qed

lemma generateFromFormula_throw:
  assumes "newFunction formula = Some func"
    and "k < FRAME_SIZE"
    and "evalAt func k = Throws"
  shows "generateFromFormula newFunction formula = generateSine"
  using assms formulaLoop_throws [of 0 k func "replicate FRAME_SIZE (Fin 0)"]
  by (simp add: generateFromFormula_def)

lemma generateSine_quarter: "generateSine ! 512 = Fin 1"
  by (simp add: generateSine_def FRAME_SIZE_def)

text \<open>
  C1 (as amended). When the evaluator was constructed and no call throws, sample \<open>i\<close>
  is settled by the value \<open>v\<close> of call \<open>i\<close> alone: NaN gives 0, and every other value
  is clamped to [-1, 1], so that plus infinity gives 1 and minus infinity gives -1.
  Only NaN is replaced by 0; the infinities are not.
\<close>

theorem generateFromFormula_sample:
  assumes "newFunction formula = Some func"
    and "\<forall>k < FRAME_SIZE. evalAt func k \<noteq> Throws"
    and "i < FRAME_SIZE"
    and "evalAt func i = Returns v"
  shows "generateFromFormula newFunction formula ! i =
           (case v of NaN \<Rightarrow> Fin 0 | PInf \<Rightarrow> Fin 1 | NInf \<Rightarrow> Fin (- 1)
            | Fin r \<Rightarrow> Fin (max (- 1) (min 1 r)))"
  using generateFromFormula_no_throw [of newFunction formula func i v] assms
  by (simp add: hardClip_cases)

text \<open>
  The theorem at the formula \<^verbatim>\<open>i === 0 ? NaN : 2.5\<close>: sample 0 is 0 and sample 7
  is clamped to 1.
\<close>

theorem generateFromFormula_sample_witness:
  "generateFromFormula
     (\<lambda>s. Some (\<lambda>x t i n. if i = 0 then Returns NaN else Returns (Fin 2.5)))
     ''i === 0 ? NaN : 2.5'' ! 0 = Fin 0
   \<and> generateFromFormula
     (\<lambda>s. Some (\<lambda>x t i n. if i = 0 then Returns NaN else Returns (Fin 2.5)))
     ''i === 0 ? NaN : 2.5'' ! 7 = Fin 1"
  using
    generateFromFormula_sample [of
      "\<lambda>s. Some (\<lambda>x t i n. if i = 0 then Returns NaN else Returns (Fin 2.5))"
      "''i === 0 ? NaN : 2.5''"
      "\<lambda>x t i n. if i = 0 then Returns NaN else Returns (Fin 2.5)" 0 NaN]
    generateFromFormula_sample [of
      "\<lambda>s. Some (\<lambda>x t i n. if i = 0 then Returns NaN else Returns (Fin 2.5))"
      "''i === 0 ? NaN : 2.5''"
      "\<lambda>x t i n. if i = 0 then Returns NaN else Returns (Fin 2.5)" 7 "Fin 2.5"]
  by (simp add: evalAt_def FRAME_SIZE_def)

text \<open>
  With "non-finite" in the place of NaN the property fails, at the formula
  \<^verbatim>\<open>1/0\<close>, which evaluates to plus infinity at every index: sample 0 is 1, not 0.
\<close>

theorem generateFromFormula_infinity_counterexample:
  "generateFromFormula (\<lambda>s. Some (\<lambda>x t i n. Returns PInf)) ''1/0'' ! 0 = Fin 1
   \<and> generateFromFormula (\<lambda>s. Some (\<lambda>x t i n. Returns PInf)) ''1/0'' ! 0 \<noteq> Fin 0"
proof -
  have "generateFromFormula (\<lambda>s. Some (\<lambda>x t i n. Returns PInf)) ''1/0'' ! 0 = hardClip PInf"
    by (rule generateFromFormula_no_throw [where func = "\<lambda>x t i n. Returns PInf"])
       (simp_all add: evalAt_def FRAME_SIZE_def)
  then show ?thesis by (simp add: hardClip_cases)
qed

text \<open>
  C2 (as amended). When the evaluator was constructed and the call at some index
  \<open>k\<close> throws, the loop is left and the whole buffer is the Sine generator's: the
  fallback is the same as after a failed construction, and no sample of the formula
  is kept.
\<close>

theorem generateFromFormula_throw_falls_back:
  assumes "newFunction formula = Some func"
    and "k < FRAME_SIZE"
    and "evalAt func k = Throws"
  shows "generateFromFormula newFunction formula = generateSine"
  using generateFromFormula_throw [of newFunction formula func k] assms by simp

text \<open>The theorem at an evaluator that throws at index 3 only.\<close>

theorem generateFromFormula_throw_falls_back_witness:
  "generateFromFormula
     (\<lambda>s. Some (\<lambda>x t i n. if i = 3 then Throws else Returns (Fin 0)))
     ''i === 3 ? null.x : 0'' = generateSine"
  using generateFromFormula_throw_falls_back [of
      "\<lambda>s. Some (\<lambda>x t i n. if i = 3 then Throws else Returns (Fin 0))"
      "''i === 3 ? null.x : 0''"
      "\<lambda>x t i n. if i = 3 then Throws else Returns (Fin 0)" 3]
  by (simp add: evalAt_def FRAME_SIZE_def)

text \<open>
  A throw does not cost one sample only. At an evaluator that throws at index 0 and
  returns 0 everywhere else, sample 512, whose own call returns 0, is the sine's 1.
\<close>

theorem generateFromFormula_throw_counterexample:
  "evalAt (\<lambda>x t i n. if i = 0 then Throws else Returns (Fin 0)) 512 = Returns (Fin 0)
   \<and> generateFromFormula
       (\<lambda>s. Some (\<lambda>x t i n. if i = 0 then Throws else Returns (Fin 0)))
       ''i === 0 ? null.x : 0'' ! 512 = Fin 1"
proof -
  have "generateFromFormula
       (\<lambda>s. Some (\<lambda>x t i n. if i = 0 then Throws else Returns (Fin 0)))
       ''i === 0 ? null.x : 0'' = generateSine"
    by (rule generateFromFormula_throw
          [where func = "\<lambda>x t i n. if i = 0 then Throws else Returns (Fin 0)" and k = 0])
       (simp_all add: evalAt_def FRAME_SIZE_def)
  then show ?thesis by (simp add: generateSine_quarter evalAt_def)
qed

subsection \<open>Additive synthesis\<close>

lemma js_mul_one [simp]: "js_mul a (Fin 1) = a"
  by (cases a) auto

lemma js_add_zero [simp]: "js_add a (Fin 0) = a"
  by (cases a) auto

lemma js_add_zero_left [simp]: "js_add (Fin 0) a = a"
  by (cases a) auto

lemma js_sub_one [simp]: "js_sub (Fin 1) (Fin 0) = Fin 1" "js_sub (Fin 1) (Fin 1) = Fin 0"
  by (simp_all add: js_sub_def)

lemma js_mul_finite_zero: "finite_sample b \<Longrightarrow> js_mul b (Fin 0) = Fin 0"
  by (cases b) (auto simp: finite_sample_def)

lemma addHarmonic_length [simp]: "length (addHarmonic h amp buf) = FRAME_SIZE"
  by (simp add: addHarmonic_def)

lemma addHarmonic_nth:
  "i < FRAME_SIZE \<Longrightarrow> length buf = FRAME_SIZE \<Longrightarrow>
   addHarmonic h amp buf ! i =
     js_add (buf ! i) (js_mul amp (Fin (sin (2 * pi * real (h + 1) * real i / real FRAME_SIZE))))"
  by (simp add: addHarmonic_def ta_get_def mult.commute mult.left_commute)

text \<open>
  The loop, started at harmonic \<open>h\<close> on a buffer of \<^verbatim>\<open>FRAME_SIZE\<close> samples, adds to
  sample \<open>i\<close> the terms of all amplitudes in their order. A skipped amplitude is
  a term that is zero.
\<close>

lemma harmonicsLoop_sum:
  "length buf = FRAME_SIZE \<Longrightarrow>
   harmonicsLoop amps h buf =
     map (\<lambda>i. foldl js_add (buf ! i)
            (map (\<lambda>k. js_mul (amps ! k)
                        (Fin (sin (2 * pi * real (h + k + 1) * real i / real FRAME_SIZE))))
                 [0..<length amps]))
         [0..<FRAME_SIZE]"
proof (induction amps arbitrary: h buf)
  case Nil
  have "map ((!) buf) [0..<length buf] = buf" by (rule map_nth)
  with Nil show ?case by simp
next
  case (Cons amp rest)
  let ?buf = "if amp = Fin 0 then buf else addHarmonic h amp buf"
  have len: "length ?buf = FRAME_SIZE" using Cons.prems by simp
  have nth: "\<And>i. i < FRAME_SIZE \<Longrightarrow> ?buf ! i =
     js_add (buf ! i) (js_mul amp (Fin (sin (2 * pi * real (h + 1) * real i / real FRAME_SIZE))))"
    using Cons.prems by (auto simp: addHarmonic_nth)
  have "harmonicsLoop (amp # rest) h buf = harmonicsLoop rest (h + 1) ?buf" by simp
  also have "\<dots> = map (\<lambda>i. foldl js_add (?buf ! i)
            (map (\<lambda>k. js_mul (rest ! k)
                        (Fin (sin (2 * pi * real (h + 1 + k + 1) * real i / real FRAME_SIZE))))
                 [0..<length rest]))
         [0..<FRAME_SIZE]"
    by (rule Cons.IH [OF len])
  also have "\<dots> = map (\<lambda>i. foldl js_add (buf ! i)
            (map (\<lambda>k. js_mul ((amp # rest) ! k)
                        (Fin (sin (2 * pi * real (h + k + 1) * real i / real FRAME_SIZE))))
                 [0..<length (amp # rest)]))
         [0..<FRAME_SIZE]"
  proof (rule map_cong [OF refl])
    fix i assume "i \<in> set [0..<FRAME_SIZE]"
    then have i: "i < FRAME_SIZE" by simp
    have "[0..<length (amp # rest)] = 0 # map Suc [0..<length rest]"
      by (simp add: upt_conv_Cons map_Suc_upt del: upt_Suc)
    then show "foldl js_add (?buf ! i)
            (map (\<lambda>k. js_mul (rest ! k)
                        (Fin (sin (2 * pi * real (h + 1 + k + 1) * real i / real FRAME_SIZE))))
                 [0..<length rest]) =
          foldl js_add (buf ! i)
            (map (\<lambda>k. js_mul ((amp # rest) ! k)
                        (Fin (sin (2 * pi * real (h + k + 1) * real i / real FRAME_SIZE))))
                 [0..<length (amp # rest)])"
      using nth [OF i] by (simp add: comp_def add.commute add.left_commute del: upt_Suc)
  qed
  finally show ?case .
qed

text \<open>
  C9. For every sequence of amplitudes, \<^verbatim>\<open>generateFromHarmonics\<close>, which skips the
  amplitudes that are zero, returns the same buffer as the reference that sums every
  term, the zero ones included, and normalises the sums.
\<close>

theorem generateFromHarmonics_skip_is_optimisation:
  "generateFromHarmonics harmonics = generateFromHarmonics_naive harmonics"
proof -
  have "length (replicate FRAME_SIZE (Fin 0)) = FRAME_SIZE" by simp
  then have "harmonicsLoop harmonics 0 (replicate FRAME_SIZE (Fin 0)) =
      map (\<lambda>i. foldl js_add (replicate FRAME_SIZE (Fin 0) ! i)
            (map (\<lambda>k. js_mul (harmonics ! k)
                        (Fin (sin (2 * pi * real (0 + k + 1) * real i / real FRAME_SIZE))))
                 [0..<length harmonics]))
         [0..<FRAME_SIZE]"
    by (rule harmonicsLoop_sum)
  also have "\<dots> = map (harmonicSum harmonics) [0..<FRAME_SIZE]"
    by (rule map_cong [OF refl]) (simp add: harmonicSum_def)
  finally show ?thesis
    by (simp add: generateFromHarmonics_def generateFromHarmonics_naive_def)
qed

subsection \<open>Interpolation\<close>

lemma interpolateFrames_length [simp]: "length (interpolateFrames a b mix) = FRAME_SIZE"
  by (simp add: interpolateFrames_def)

lemma interpolateFrames_nth:
  "i < FRAME_SIZE \<Longrightarrow>
   interpolateFrames a b mix ! i =
     js_add (js_mul (ta_get a (int i)) (js_sub (Fin 1) mix)) (js_mul (ta_get b (int i)) mix)"
  by (simp add: interpolateFrames_def)

text \<open>
  C8 (as amended). For buffers \<open>a\<close> and \<open>b\<close> of \<^verbatim>\<open>FRAME_SIZE\<close> samples:
  \<^verbatim>\<open>interpolateFrames(a, b, 0)\<close> is \<open>a\<close>, sample by sample, when every sample of \<open>b\<close>
  is finite, and \<^verbatim>\<open>interpolateFrames(a, b, 1)\<close> is \<open>b\<close> when every sample of \<open>a\<close> is
  finite. The buffer that is returned may hold any numbers; the one that is weighted
  by zero may not, because zero times an infinity or NaN is NaN.
\<close>

theorem interpolateFrames_endpoints:
  assumes "length a = FRAME_SIZE" and "length b = FRAME_SIZE"
  shows "((\<forall>v \<in> set b. finite_sample v) \<longrightarrow> interpolateFrames a b (Fin 0) = a)
       \<and> ((\<forall>v \<in> set a. finite_sample v) \<longrightarrow> interpolateFrames a b (Fin 1) = b)"
proof (intro conjI impI)
  assume fin: "\<forall>v \<in> set b. finite_sample v"
  show "interpolateFrames a b (Fin 0) = a"
  proof (rule nth_equalityI)
    show "length (interpolateFrames a b (Fin 0)) = length a" using assms by simp
    fix i assume "i < length (interpolateFrames a b (Fin 0))"
    then have i: "i < FRAME_SIZE" by simp
    then have "finite_sample (b ! i)" using assms fin by simp
    then show "interpolateFrames a b (Fin 0) ! i = a ! i"
      using i assms by (simp add: interpolateFrames_nth ta_get_def js_mul_finite_zero)
  qed
next
  assume fin: "\<forall>v \<in> set a. finite_sample v"
  show "interpolateFrames a b (Fin 1) = b"
  proof (rule nth_equalityI)
    show "length (interpolateFrames a b (Fin 1)) = length b" using assms by simp
    fix i assume "i < length (interpolateFrames a b (Fin 1))"
    then have i: "i < FRAME_SIZE" by simp
    then have "finite_sample (a ! i)" using assms fin by simp
    then show "interpolateFrames a b (Fin 1) ! i = b ! i"
      using i assms by (simp add: interpolateFrames_nth ta_get_def js_mul_finite_zero)
  qed
qed

text \<open>The theorem at the constant buffers 1 and -1.\<close>

theorem interpolateFrames_endpoints_witness:
  "interpolateFrames (replicate FRAME_SIZE (Fin 1)) (replicate FRAME_SIZE (Fin (- 1))) (Fin 0)
     = replicate FRAME_SIZE (Fin 1)
   \<and> interpolateFrames (replicate FRAME_SIZE (Fin 1)) (replicate FRAME_SIZE (Fin (- 1))) (Fin 1)
     = replicate FRAME_SIZE (Fin (- 1))"
  using interpolateFrames_endpoints
    [of "replicate FRAME_SIZE (Fin 1)" "replicate FRAME_SIZE (Fin (- 1))"]
  by (simp add: finite_sample_def)

text \<open>
  Without the finiteness the identity fails: with \<open>a\<close> all zero and \<open>b\<close> all plus
  infinity, sample 0 of \<^verbatim>\<open>interpolateFrames(a, b, 0)\<close> is \<open>0 * 1 + Infinity * 0\<close>,
  which is NaN and not the 0 of \<open>a\<close>.
\<close>

theorem interpolateFrames_infinity_counterexample:
  "interpolateFrames (replicate FRAME_SIZE (Fin 0)) (replicate FRAME_SIZE PInf) (Fin 0) ! 0 = NaN
   \<and> replicate FRAME_SIZE (Fin 0) ! 0 = Fin 0
   \<and> interpolateFrames (replicate FRAME_SIZE (Fin 0)) (replicate FRAME_SIZE PInf) (Fin 0)
       \<noteq> replicate FRAME_SIZE (Fin 0)"
proof -
  have z: "0 < FRAME_SIZE" by (simp add: FRAME_SIZE_def)
  have n: "interpolateFrames (replicate FRAME_SIZE (Fin 0)) (replicate FRAME_SIZE PInf) (Fin 0) ! 0
             = NaN"
    using z by (simp add: interpolateFrames_nth ta_get_def)
  have r: "replicate FRAME_SIZE (Fin 0) ! 0 = Fin 0" using z by simp
  from n r show ?thesis by auto
qed

subsection \<open>WAV export\<close>

lemma length_le32 [simp]: "length (le32 w) = 4"
  by (simp add: le32_def)

lemma length_le16 [simp]: "length (le16 w) = 2"
  by (simp add: le16_def)

text \<open>
  The writes of the encoder are contiguous and ascending: each one extends the
  written part of a view whose rest is zero.
\<close>

lemma setBytes_filled:
  "byteOffset = length pre \<Longrightarrow> length bs \<le> n \<Longrightarrow>
   setBytes (filled pre n) byteOffset bs = Some (filled (pre @ bs) (n - length bs))"
  by (simp add: setBytes_def filled_def)

lemma writeString_filled:
  "offset = length pre \<Longrightarrow> length s \<le> n \<Longrightarrow>
   writeString (filled pre n) offset s = Some (filled (pre @ asciiBytes s) (n - length s))"
proof (induction s arbitrary: pre n offset)
  case Nil
  then show ?case by (simp add: asciiBytes_def)
next
  case (Cons c cs)
  have "setUint8 (filled pre n) offset (of_char c) =
          Some (filled (pre @ [word_of_nat (of_char c)]) (n - 1))"
    using Cons.prems by (simp add: setUint8_def setBytes_filled)
  moreover have "writeString (filled (pre @ [word_of_nat (of_char c)]) (n - 1)) (offset + 1) cs =
      Some (filled ((pre @ [word_of_nat (of_char c)]) @ asciiBytes cs) (n - 1 - length cs))"
    using Cons.prems by (intro Cons.IH) auto
  ultimately show ?case by (simp add: asciiBytes_def)
qed

lemma sampleLoop_filled:
  "offset = length pre \<Longrightarrow> 4 * length is \<le> n \<Longrightarrow>
   sampleLoop enc frame is (filled pre n, offset) =
     Some (filled (pre @ concat (map (\<lambda>i. le32 (enc (ta_get frame (int i)))) is))
             (n - 4 * length is),
           offset + 4 * length is)"
proof (induction "is" arbitrary: pre n offset)
  case Nil
  then show ?case by simp
next
  case (Cons i "is")
  let ?b = "le32 (enc (ta_get frame (int i)))"
  have "setFloat32 enc (filled pre n) offset (ta_get frame (int i)) True =
          Some (filled (pre @ ?b) (n - 4))"
    using Cons.prems by (simp add: setFloat32_def setBytes_filled)
  moreover have "sampleLoop enc frame is (filled (pre @ ?b) (n - 4), offset + 4) =
     Some (filled ((pre @ ?b) @ concat (map (\<lambda>i. le32 (enc (ta_get frame (int i)))) is))
             (n - 4 - 4 * length is),
           offset + 4 + 4 * length is)"
    using Cons.prems by (intro Cons.IH) auto
  ultimately show ?case by simp
qed

lemma length_concat_le32: "length (concat (map (\<lambda>i. le32 (f i)) xs)) = 4 * length xs"
  by (induction xs) auto

lemma length_frameBytes [simp]: "length (frameBytes enc frame) = 4 * FRAME_SIZE"
  by (simp add: frameBytes_def length_concat_le32)

lemma framesLoop_filled:
  "offset = length pre \<Longrightarrow> 4 * FRAME_SIZE * length fs \<le> n \<Longrightarrow>
   framesLoop enc fs (filled pre n, offset) =
     Some (filled (pre @ concat (map (frameBytes enc) fs)) (n - 4 * FRAME_SIZE * length fs),
           offset + 4 * FRAME_SIZE * length fs)"
proof (induction fs arbitrary: pre n offset)
  case Nil
  then show ?case by simp
next
  case (Cons frame rest)
  have "sampleLoop enc frame [0..<FRAME_SIZE] (filled pre n, offset) =
      Some (filled (pre @ frameBytes enc frame) (n - 4 * FRAME_SIZE), offset + 4 * FRAME_SIZE)"
    using Cons.prems by (simp add: sampleLoop_filled frameBytes_def)
  moreover have "framesLoop enc rest
       (filled (pre @ frameBytes enc frame) (n - 4 * FRAME_SIZE), offset + 4 * FRAME_SIZE) =
     Some (filled ((pre @ frameBytes enc frame) @ concat (map (frameBytes enc) rest))
             (n - 4 * FRAME_SIZE - 4 * FRAME_SIZE * length rest),
           offset + 4 * FRAME_SIZE + 4 * FRAME_SIZE * length rest)"
    using Cons.prems by (intro Cons.IH) auto
  ultimately show ?case by (simp add: algebra_simps)
qed

lemma frameBytes_full:
  "length frame = FRAME_SIZE \<Longrightarrow> frameBytes enc frame = concat (map (\<lambda>v. le32 (enc v)) frame)"
proof -
  assume l: "length frame = FRAME_SIZE"
  have "map (\<lambda>i. le32 (enc (ta_get frame (int i)))) [0..<length frame] =
        map (\<lambda>i. le32 (enc (frame ! i))) [0..<length frame]"
    by (rule map_cong [OF refl]) (simp add: ta_get_def)
  also have "\<dots> = map (\<lambda>v. le32 (enc v)) (map ((!) frame) [0..<length frame])"
    by (simp add: comp_def)
  also have "\<dots> = map (\<lambda>v. le32 (enc v)) frame" by (simp only: map_nth)
  finally show ?thesis using l by (simp add: frameBytes_def)
qed

text \<open>
  The whole output, for frames of any length: the header and then, for every frame,
  the patterns of \<^verbatim>\<open>frame[i]\<close> for \<open>i\<close> below \<^verbatim>\<open>FRAME_SIZE\<close>.
\<close>

lemma exportWavetableToWav_bytes:
  "exportWavetableToWav enc fs =
     Some (asciiBytes ''RIFF'' @ le32 (word_of_nat (36 + length fs * FRAME_SIZE * 4))
           @ asciiBytes ''WAVE'' @ asciiBytes ''fmt '' @ le32 16 @ le16 3 @ le16 1
           @ le32 44100 @ le32 176400 @ le16 4 @ le16 32
           @ asciiBytes ''data'' @ le32 (word_of_nat (length fs * FRAME_SIZE * 4))
           @ concat (map (frameBytes enc) fs))"
proof -
  have init: "replicate n (0 :: 8 word) = filled [] n" for n
    by (simp add: filled_def)
  have fin: "filled xs 0 = xs" for xs by (simp add: filled_def)
  have l: "length (asciiBytes s) = length s" for s by (simp add: asciiBytes_def)
  show ?thesis
    by (simp add: exportWavetableToWav_def Let_def init writeString_filled setBytes_filled
        framesLoop_filled setUint32_def setUint16_def fin l del: writeString.simps)
qed

lemma length_concat_frameBytes:
  "length (concat (map (frameBytes enc) fs)) = length fs * FRAME_SIZE * 4"
  by (induction fs) auto

text \<open>
  C5. For every sequence of frames of \<^verbatim>\<open>FRAME_SIZE\<close> (2048) samples each,
  \<^verbatim>\<open>exportWavetableToWav\<close> returns, without a RangeError, exactly
  \<open>44 + numFrames * 2048 * 4\<close> bytes: bytes 0-3 "RIFF", bytes 4-7 the 32-bit value
  \<open>36 + dataSize\<close>, bytes 8-11 "WAVE", bytes 12-15 "fmt ", bytes 16-19 the value 16,
  bytes 20-21 the value 3, bytes 22-23 the value 1, bytes 24-27 the value 44100, bytes
  28-31 the value 176400, bytes 32-33 the value 4, bytes 34-35 the value 32, bytes 36-39
  "data", bytes 40-43 \<open>dataSize = numFrames * 2048 * 4\<close>, every integer little-endian,
  and from byte 44 on the samples of every frame in frame order, each as the four
  little-endian bytes of its binary32 pattern. One all-zero frame gives 8236 bytes whose
  sample bytes are the pattern of 0.0, 2048 times.
\<close>

theorem exportWavetableToWav_layout:
  assumes "\<forall>frame \<in> set fs. length frame = FRAME_SIZE"
  shows "\<exists>out. exportWavetableToWav float32Bits fs = Some out
     \<and> length out = 44 + length fs * 2048 * 4
     \<and> take 4 out = asciiBytes ''RIFF''
     \<and> take 4 (drop 4 out) = le32 (word_of_nat (36 + length fs * 2048 * 4))
     \<and> take 4 (drop 8 out) = asciiBytes ''WAVE''
     \<and> take 4 (drop 12 out) = asciiBytes ''fmt ''
     \<and> take 4 (drop 16 out) = le32 16
     \<and> take 2 (drop 20 out) = le16 3
     \<and> take 2 (drop 22 out) = le16 1
     \<and> take 4 (drop 24 out) = le32 44100
     \<and> take 4 (drop 28 out) = le32 176400
     \<and> take 2 (drop 32 out) = le16 4
     \<and> take 2 (drop 34 out) = le16 32
     \<and> take 4 (drop 36 out) = asciiBytes ''data''
     \<and> take 4 (drop 40 out) = le32 (word_of_nat (length fs * 2048 * 4))
     \<and> drop 44 out = concat (map (\<lambda>frame. concat (map (\<lambda>v. le32 (float32Bits v)) frame)) fs)
     \<and> (fs = [replicate 2048 (Fin 0)] \<longrightarrow>
          length out = 8236
        \<and> drop 44 out = concat (replicate 2048 (le32 (float32Bits (Fin 0)))))"
proof -
  let ?d = "length fs * FRAME_SIZE * 4"
  let ?data = "concat (map (frameBytes float32Bits) fs)"
  define out where "out = asciiBytes ''RIFF'' @ le32 (word_of_nat (36 + ?d))
           @ asciiBytes ''WAVE'' @ asciiBytes ''fmt '' @ le32 16 @ le16 3 @ le16 1
           @ le32 44100 @ le32 176400 @ le16 4 @ le16 32
           @ asciiBytes ''data'' @ le32 (word_of_nat ?d) @ ?data"
  have e: "exportWavetableToWav float32Bits fs = Some out"
    unfolding out_def by (rule exportWavetableToWav_bytes)
  have F: "FRAME_SIZE = 2048" by (simp add: FRAME_SIZE_def)
  have a: "length (asciiBytes s) = length s" for s by (simp add: asciiBytes_def)
  have "?data = concat (map (\<lambda>frame. concat (map (\<lambda>v. le32 (float32Bits v)) frame)) fs)"
    using assms by (simp add: frameBytes_full cong: map_cong)
  moreover have "drop 44 out = ?data" by (simp add: out_def a)
  ultimately have data:
    "drop 44 out = concat (map (\<lambda>frame. concat (map (\<lambda>v. le32 (float32Bits v)) frame)) fs)"
    by simp
  have len: "length out = 44 + length fs * 2048 * 4"
    by (simp add: out_def a length_concat_frameBytes F)
  have zero: "fs = [replicate 2048 (Fin 0)] \<longrightarrow>
      length out = 8236 \<and> drop 44 out = concat (replicate 2048 (le32 (float32Bits (Fin 0))))"
    using len data by simp
  have h: "take 4 out = asciiBytes ''RIFF''"
    "take 4 (drop 4 out) = le32 (word_of_nat (36 + length fs * 2048 * 4))"
    "take 4 (drop 8 out) = asciiBytes ''WAVE''"
    "take 4 (drop 12 out) = asciiBytes ''fmt ''"
    "take 4 (drop 16 out) = le32 16"
    "take 2 (drop 20 out) = le16 3"
    "take 2 (drop 22 out) = le16 1"
    "take 4 (drop 24 out) = le32 44100"
    "take 4 (drop 28 out) = le32 176400"
    "take 2 (drop 32 out) = le16 4"
    "take 2 (drop 34 out) = le16 32"
    "take 4 (drop 36 out) = asciiBytes ''data''"
    "take 4 (drop 40 out) = le32 (word_of_nat (length fs * 2048 * 4))"
    by (simp_all add: out_def a F)
  show ?thesis
    using e len h data zero by (intro exI [of _ out]) (simp only: simp_thms)
qed

text \<open>
  The theorem at one all-zero frame, with an encoder that gives 0.0 its binary32
  pattern 00000000: the 44 header bytes in hexadecimal, and 8192 zero bytes.
\<close>

theorem exportWavetableToWav_layout_witness:
  "\<exists>out. exportWavetableToWav (\<lambda>v. if v = Fin 0 then 0 else 0x7FC00000)
            [replicate 2048 (Fin 0)] = Some out
     \<and> length out = 8236
     \<and> take 4 out = [0x52, 0x49, 0x46, 0x46]
     \<and> take 4 (drop 4 out) = [0x24, 0x20, 0, 0]
     \<and> take 4 (drop 8 out) = [0x57, 0x41, 0x56, 0x45]
     \<and> take 4 (drop 12 out) = [0x66, 0x6D, 0x74, 0x20]
     \<and> take 4 (drop 16 out) = [16, 0, 0, 0]
     \<and> take 2 (drop 20 out) = [3, 0]
     \<and> take 2 (drop 22 out) = [1, 0]
     \<and> take 4 (drop 24 out) = [0x44, 0xAC, 0, 0]
     \<and> take 4 (drop 28 out) = [0x10, 0xB1, 0x02, 0]
     \<and> take 2 (drop 32 out) = [4, 0]
     \<and> take 2 (drop 34 out) = [32, 0]
     \<and> take 4 (drop 36 out) = [0x64, 0x61, 0x74, 0x61]
     \<and> take 4 (drop 40 out) = [0, 0x20, 0, 0]
     \<and> drop 44 out = concat (replicate 2048 [0, 0, 0, 0])"
proof -
  have "\<forall>frame \<in> set [replicate 2048 (Fin 0)]. length frame = FRAME_SIZE"
    by (simp add: FRAME_SIZE_def)
  from exportWavetableToWav_layout
    [OF this, of "\<lambda>v. if v = Fin 0 then 0 else 0x7FC00000"]
  show ?thesis
    apply (elim exE conjE)
    subgoal for out
      apply (rule exI [of _ out])
      apply (simp add: asciiBytes_def le32_def le16_def)
      done
    done
qed

subsection \<open>The brush editor\<close>

declare moveLoop.simps [simp del]

text \<open>
  On a canvas of positive width the cursor mapping returns an index between 0 and
  \<^verbatim>\<open>FRAME_SIZE\<close>, and \<^verbatim>\<open>FRAME_SIZE\<close> itself, one past the last sample, at the right
  edge.
\<close>

lemma getCursorPosition_range:
  assumes "0 < width"
  shows "\<exists>i a. getCursorPosition (cx, cy) (l, t, width, height) = Some (i, a)
           \<and> 0 \<le> i \<and> i \<le> int FRAME_SIZE"
proof -
  let ?x = "max 0 (min (cx - l) width)"
  have r: "0 \<le> ?x / width" "?x / width \<le> 1" using assms by simp_all
  have "0 \<le> (?x / width) * real FRAME_SIZE"
    using r(1) by (rule mult_nonneg_nonneg) simp
  moreover have "(?x / width) * real FRAME_SIZE \<le> 1 * real FRAME_SIZE"
    using r(2) by (rule mult_right_mono) simp
  ultimately have "0 \<le> \<lfloor>(?x / width) * real FRAME_SIZE\<rfloor>" "\<lfloor>(?x / width) * real FRAME_SIZE\<rfloor> \<le> int FRAME_SIZE"
    by (simp_all add: floor_le_iff le_floor_iff) 
  then show ?thesis using assms by (simp add: getCursorPosition_def Let_def)
qed

lemma getCursorPosition_right_edge:
  assumes "0 < width" and "l + width \<le> cx"
  shows "\<exists>a. getCursorPosition (cx, cy) (l, t, width, height) = Some (int FRAME_SIZE, a)"
proof -
  have "max 0 (min (cx - l) width) = width" using assms by simp
  then show ?thesis using assms by (simp add: getCursorPosition_def Let_def)
qed

text \<open>
  The loop of \<^verbatim>\<open>applyBrush\<close> over any list of offsets: the buffer keeps its length,
  the log grows by the indices that pass the guard, and a sample that is at none of
  the offsets keeps its value.
\<close>

lemma brushStep_fold_length:
  "length (fst (fold (brushStep c amp) offs s)) = length (fst s)"
  by (induction offs arbitrary: s) (auto simp: brushStep_def Let_def ta_set_def)

lemma brushStep_fold_log:
  "snd (fold (brushStep c amp) offs s) =
     snd s @ filter (\<lambda>idx. 0 \<le> idx \<and> idx < int FRAME_SIZE) (map (\<lambda>i. c + i) offs)"
  by (induction offs arbitrary: s) (auto simp: brushStep_def Let_def)

lemma brushStep_fold_frame:
  "j \<notin> (\<lambda>i. c + i) ` set offs \<Longrightarrow>
   ta_get (fst (fold (brushStep c amp) offs s)) j = ta_get (fst s) j"
proof (induction offs arbitrary: s)
  case Nil
  then show ?case by simp
next
  case (Cons i offs)
  have "ta_get (fst (brushStep c amp i s)) j = ta_get (fst s) j"
    using Cons.prems by (auto simp: brushStep_def Let_def ta_set_def ta_get_def)
  with Cons show ?case by simp
qed

lemma applyBrushLog_set:
  "set (snd (applyBrushLog buf c amp)) =
     {idx. 0 \<le> idx \<and> idx < int FRAME_SIZE \<and> \<bar>idx - c\<bar> \<le> brushSize}"
proof -
  have "(\<lambda>i. c + i) ` {- brushSize..brushSize} = {idx. \<bar>idx - c\<bar> \<le> brushSize}"
  proof (rule set_eqI)
    fix x
    have "x = c + (x - c)" by simp
    then show "x \<in> (\<lambda>i. c + i) ` {- brushSize..brushSize} \<longleftrightarrow> x \<in> {idx. \<bar>idx - c\<bar> \<le> brushSize}"
      by (auto simp: image_iff intro!: bexI [of _ "x - c"])
  qed
  then show ?thesis
    by (auto simp: applyBrushLog_def brushStep_fold_log)
qed

lemma applyBrush_length [simp]: "length (applyBrush buf c amp) = length buf"
  by (simp add: applyBrush_def applyBrushLog_def brushStep_fold_length)

lemma applyBrush_frame:
  assumes "\<not> \<bar>j - c\<bar> \<le> brushSize"
  shows "ta_get (applyBrush buf c amp) j = ta_get buf j"
proof -
  have "j \<notin> (\<lambda>i. c + i) ` set [- brushSize..brushSize]"
    using assms by auto
  then show ?thesis
    unfolding applyBrush_def applyBrushLog_def by (simp add: brushStep_fold_frame)
qed

text \<open>
  C10. For every centre index, every amplitude and every buffer of \<^verbatim>\<open>FRAME_SIZE\<close>
  samples, each index at which \<^verbatim>\<open>applyBrush\<close> reads or writes the buffer lies inside
  the buffer and at most 15 away from the centre; the buffer keeps its length; and
  every sample further than 15 from the centre is unchanged.
\<close>

theorem applyBrush_in_bounds:
  assumes "length buf = FRAME_SIZE"
  shows "(\<forall>idx \<in> set (snd (applyBrushLog buf centerIndex amp)).
            0 \<le> idx \<and> idx < int (length buf) \<and> \<bar>idx - centerIndex\<bar> \<le> 15)
       \<and> length (applyBrush buf centerIndex amp) = length buf
       \<and> (\<forall>j < FRAME_SIZE. \<not> \<bar>int j - centerIndex\<bar> \<le> 15 \<longrightarrow>
            applyBrush buf centerIndex amp ! j = buf ! j)"
proof (intro conjI ballI allI impI)
  fix idx assume "idx \<in> set (snd (applyBrushLog buf centerIndex amp))"
  then have "0 \<le> idx \<and> idx < int FRAME_SIZE \<and> \<bar>idx - centerIndex\<bar> \<le> brushSize"
    by (simp add: applyBrushLog_set)
  then show "0 \<le> idx" "idx < int (length buf)" "\<bar>idx - centerIndex\<bar> \<le> 15"
    using assms by (simp_all add: brushSize_def)
next
  show "length (applyBrush buf centerIndex amp) = length buf" by simp
next
  fix j assume j: "j < FRAME_SIZE" and out: "\<not> \<bar>int j - centerIndex\<bar> \<le> 15"
  then have "ta_get (applyBrush buf centerIndex amp) (int j) = ta_get buf (int j)"
    by (intro applyBrush_frame) (simp add: brushSize_def)
  then show "applyBrush buf centerIndex amp ! j = buf ! j"
    using j assms by (simp add: ta_get_def)
qed

text \<open>
  The theorem at the centre \<^verbatim>\<open>FRAME_SIZE\<close> of the right edge, on the all-zero
  buffer: index \<^verbatim>\<open>FRAME_SIZE\<close> is not touched and sample 2000 is still 0.
\<close>

theorem applyBrush_in_bounds_witness:
  "length (applyBrush (replicate FRAME_SIZE (Fin 0)) (int FRAME_SIZE) (Fin 1)) = FRAME_SIZE
   \<and> int FRAME_SIZE \<notin> set (snd (applyBrushLog (replicate FRAME_SIZE (Fin 0)) (int FRAME_SIZE) (Fin 1)))
   \<and> applyBrush (replicate FRAME_SIZE (Fin 0)) (int FRAME_SIZE) (Fin 1) ! 2000 = Fin 0"
  using applyBrush_in_bounds [of "replicate FRAME_SIZE (Fin 0)" "int FRAME_SIZE" "Fin 1"]
  by (auto simp: FRAME_SIZE_def)

text \<open>The loop of \<^verbatim>\<open>handleMove\<close> from \<open>i\<close> on is a fold over the steps \<open>i\<close> to \<open>steps\<close>.\<close>

lemma moveLoop_fold:
  "moveLoop newData startIdx stepDir steps prevAmp currAmp i =
     fold (\<lambda>p b. applyBrush b (fst p) (snd p))
       (map (\<lambda>i. (startIdx + i * stepDir,
                  js_add prevAmp
                    (js_mul (js_sub currAmp prevAmp) (Fin (real_of_int i / real_of_int steps)))))
            [i..steps])
       newData"
proof (induction newData startIdx stepDir steps prevAmp currAmp i rule: moveLoop.induct)
  case (1 newData startIdx stepDir steps prevAmp currAmp i)
  show ?case
  proof (cases "i \<le> steps")
    case True
    then have u: "[i..steps] = i # [i + 1..steps]" by (simp add: upto_rec1)
    show ?thesis
      using True 1 by (subst moveLoop.simps) (simp add: u Let_def)
  next
    case False
    then show ?thesis by (subst moveLoop.simps) simp
  qed
qed

text \<open>
  C6. In a move step of a drag with previous sample \<open>(prevIndex, prevAmp)\<close> and
  current sample \<open>(currIndex, currAmp)\<close>, the new buffer is the old one after the brush
  applications of \<open>dragApplications\<close>, in their order. With
  \<open>steps = |currIndex - prevIndex|\<close> positive these are \<open>steps + 1\<close> applications, the
  \<open>i\<close>-th at the index \<open>i\<close> steps from \<open>prevIndex\<close> towards \<open>currIndex\<close> with the
  amplitude \<open>prevAmp + (currAmp - prevAmp) * (i / steps)\<close>; with \<open>steps = 0\<close> it is one
  application at \<open>currIndex\<close> with \<open>currAmp\<close>. So every index between the two
  samples is the centre of an application, and a centre inside the buffer is among
  the indices that application writes.
\<close>

theorem handleMove_drag_interpolation:
  assumes "isDrawing st" and "isActive st" and "canvasMounted st"
    and "prevPos st = Some (prevIndex, prevAmp)"
  shows "localData (handleMove st (currIndex, currAmp)) =
           fold (\<lambda>p b. applyBrush b (fst p) (snd p))
             (dragApplications prevIndex prevAmp currIndex currAmp) (localData st)
       \<and> prevPos (handleMove st (currIndex, currAmp)) = Some (currIndex, currAmp)
       \<and> length (dragApplications prevIndex prevAmp currIndex currAmp) =
           (if \<bar>currIndex - prevIndex\<bar> > 0 then nat \<bar>currIndex - prevIndex\<bar> + 1 else 1)
       \<and> (\<forall>i. 0 \<le> i \<and> i \<le> \<bar>currIndex - prevIndex\<bar> \<and> \<bar>currIndex - prevIndex\<bar> > 0 \<longrightarrow>
            dragApplications prevIndex prevAmp currIndex currAmp ! nat i =
              ((if prevIndex < currIndex then prevIndex + i else prevIndex - i),
               js_add prevAmp (js_mul (js_sub currAmp prevAmp)
                  (Fin (real_of_int i / real_of_int \<bar>currIndex - prevIndex\<bar>)))))
       \<and> (\<bar>currIndex - prevIndex\<bar> = 0 \<longrightarrow>
            dragApplications prevIndex prevAmp currIndex currAmp = [(currIndex, currAmp)])
       \<and> (\<forall>j. min prevIndex currIndex \<le> j \<and> j \<le> max prevIndex currIndex \<longrightarrow>
            j \<in> fst ` set (dragApplications prevIndex prevAmp currIndex currAmp)
          \<and> (0 \<le> j \<and> j < int FRAME_SIZE \<longrightarrow>
               (\<forall>buf a. j \<in> set (snd (applyBrushLog buf j a)))))"
proof -
  have sg: "(if currIndex > prevIndex then 1 else - 1) = sgn (currIndex - prevIndex)"
    if "currIndex \<noteq> prevIndex" using that by (auto simp: sgn_if)
  have a: "localData (handleMove st (currIndex, currAmp)) =
           fold (\<lambda>p b. applyBrush b (fst p) (snd p))
             (dragApplications prevIndex prevAmp currIndex currAmp) (localData st)"
  proof (cases "currIndex = prevIndex")
    case True
    then show ?thesis using assms
      by (simp add: handleMove_def dragApplications_def newFloat32Array_def)
  next
    case False
    then show ?thesis using assms sg [OF False]
      by (simp add: handleMove_def dragApplications_def newFloat32Array_def Let_def moveLoop_fold)
  qed
  have b: "prevPos (handleMove st (currIndex, currAmp)) = Some (currIndex, currAmp)"
    using assms by (simp add: handleMove_def Let_def)
  have c: "length (dragApplications prevIndex prevAmp currIndex currAmp) =
           (if \<bar>currIndex - prevIndex\<bar> > 0 then nat \<bar>currIndex - prevIndex\<bar> + 1 else 1)"
    by (auto simp: dragApplications_def Let_def)
  have d: "\<forall>i. 0 \<le> i \<and> i \<le> \<bar>currIndex - prevIndex\<bar> \<and> \<bar>currIndex - prevIndex\<bar> > 0 \<longrightarrow>
            dragApplications prevIndex prevAmp currIndex currAmp ! nat i =
              ((if prevIndex < currIndex then prevIndex + i else prevIndex - i),
               js_add prevAmp (js_mul (js_sub currAmp prevAmp)
                  (Fin (real_of_int i / real_of_int \<bar>currIndex - prevIndex\<bar>))))"
  proof (intro allI impI)
    fix i assume i: "0 \<le> i \<and> i \<le> \<bar>currIndex - prevIndex\<bar> \<and> \<bar>currIndex - prevIndex\<bar> > 0"
    then have n: "[0..\<bar>currIndex - prevIndex\<bar>] ! nat i = i" by (simp add: nth_upto)
    have l: "nat i < length [0..\<bar>currIndex - prevIndex\<bar>]" using i by simp
    show "dragApplications prevIndex prevAmp currIndex currAmp ! nat i =
              ((if prevIndex < currIndex then prevIndex + i else prevIndex - i),
               js_add prevAmp (js_mul (js_sub currAmp prevAmp)
                  (Fin (real_of_int i / real_of_int \<bar>currIndex - prevIndex\<bar>))))"
      using i n l by (auto simp: dragApplications_def Let_def sgn_if simp del: length_upto)
  qed
  have e: "\<bar>currIndex - prevIndex\<bar> = 0 \<longrightarrow>
            dragApplications prevIndex prevAmp currIndex currAmp = [(currIndex, currAmp)]"
    by (simp add: dragApplications_def)
  have f: "\<forall>j. min prevIndex currIndex \<le> j \<and> j \<le> max prevIndex currIndex \<longrightarrow>
            j \<in> fst ` set (dragApplications prevIndex prevAmp currIndex currAmp)
          \<and> (0 \<le> j \<and> j < int FRAME_SIZE \<longrightarrow>
               (\<forall>buf a. j \<in> set (snd (applyBrushLog buf j a))))"
  proof (intro allI impI conjI)
    fix j assume j: "min prevIndex currIndex \<le> j \<and> j \<le> max prevIndex currIndex"
    show "j \<in> fst ` set (dragApplications prevIndex prevAmp currIndex currAmp)"
    proof (cases "currIndex = prevIndex")
      case True
      then show ?thesis using j by (simp add: dragApplications_def)
    next
      case False
      let ?i = "\<bar>j - prevIndex\<bar>"
      have "?i \<in> set [0..\<bar>currIndex - prevIndex\<bar>]" using j by auto
      moreover have "prevIndex + ?i * sgn (currIndex - prevIndex) = j"
        using j False by (auto simp: sgn_if min_def max_def split: if_splits)
      ultimately show ?thesis using False
        by (auto simp: dragApplications_def Let_def image_iff intro!: bexI [of _ ?i])
    qed
  next
    fix j buf a assume "0 \<le> j \<and> j < int FRAME_SIZE"
    then show "j \<in> set (snd (applyBrushLog buf j a))"
      by (simp add: applyBrushLog_set brushSize_def)
  qed
  show ?thesis using a b c d e f by blast
qed

text \<open>
  The theorem at the drag from index 0, amplitude 0, to index 100, amplitude 1:
  101 applications, the one in the middle at index 50 with amplitude 1/2.
\<close>

theorem handleMove_drag_interpolation_witness:
  "localData (handleMove \<lparr>isActive = True, isDrawing = True, canvasMounted = True,
                  prevPos = Some (0, Fin 0), localData = replicate FRAME_SIZE (Fin 0)\<rparr> (100, Fin 1)) =
     fold (\<lambda>p b. applyBrush b (fst p) (snd p))
          (dragApplications 0 (Fin 0) 100 (Fin 1)) (replicate FRAME_SIZE (Fin 0))
   \<and> length (dragApplications 0 (Fin 0) 100 (Fin 1)) = 101
   \<and> dragApplications 0 (Fin 0) 100 (Fin 1) ! 50 = (50, Fin (1 / 2))
   \<and> 37 \<in> fst ` set (dragApplications 0 (Fin 0) 100 (Fin 1))"
proof -
  let ?st = "\<lparr>isActive = True, isDrawing = True, canvasMounted = True,
                  prevPos = Some (0, Fin 0), localData = replicate FRAME_SIZE (Fin 0)\<rparr>"
  have t: "localData (handleMove ?st (100, Fin 1)) =
           fold (\<lambda>p b. applyBrush b (fst p) (snd p))
             (dragApplications 0 (Fin 0) 100 (Fin 1)) (localData ?st)
       \<and> prevPos (handleMove ?st (100, Fin 1)) = Some (100, Fin 1)
       \<and> length (dragApplications 0 (Fin 0) 100 (Fin 1)) =
           (if \<bar>100 - 0 :: int\<bar> > 0 then nat \<bar>100 - 0\<bar> + 1 else 1)
       \<and> (\<forall>i. 0 \<le> i \<and> i \<le> \<bar>100 - 0\<bar> \<and> \<bar>100 - 0 :: int\<bar> > 0 \<longrightarrow>
            dragApplications 0 (Fin 0) 100 (Fin 1) ! nat i =
              ((if (0 :: int) < 100 then 0 + i else 0 - i),
               js_add (Fin 0) (js_mul (js_sub (Fin 1) (Fin 0))
                  (Fin (real_of_int i / real_of_int \<bar>100 - 0\<bar>)))))
       \<and> (\<bar>100 - 0 :: int\<bar> = 0 \<longrightarrow>
            dragApplications 0 (Fin 0) 100 (Fin 1) = [(100, Fin 1)])
       \<and> (\<forall>j. min 0 100 \<le> j \<and> j \<le> max 0 100 \<longrightarrow>
            j \<in> fst ` set (dragApplications 0 (Fin 0) 100 (Fin 1))
          \<and> (0 \<le> j \<and> j < int FRAME_SIZE \<longrightarrow>
               (\<forall>buf a. j \<in> set (snd (applyBrushLog buf j a)))))"
    by (rule handleMove_drag_interpolation) simp_all
  from t have 1: "localData (handleMove ?st (100, Fin 1)) =
           fold (\<lambda>p b. applyBrush b (fst p) (snd p))
             (dragApplications 0 (Fin 0) 100 (Fin 1)) (replicate FRAME_SIZE (Fin 0))" by simp
  from t have 2: "length (dragApplications 0 (Fin 0) 100 (Fin 1)) = 101" by simp
  from t have "0 \<le> (50::int) \<and> (50::int) \<le> \<bar>100 - 0\<bar> \<and> \<bar>100 - 0 :: int\<bar> > 0 \<longrightarrow>
            dragApplications 0 (Fin 0) 100 (Fin 1) ! nat 50 =
              ((if (0 :: int) < 100 then 0 + 50 else 0 - 50),
               js_add (Fin 0) (js_mul (js_sub (Fin 1) (Fin 0))
                  (Fin (real_of_int 50 / real_of_int \<bar>100 - 0\<bar>))))" by blast
  then have 3: "dragApplications 0 (Fin 0) 100 (Fin 1) ! 50 = (50, Fin (1 / 2))" by simp
  from t have "min 0 100 \<le> (37::int) \<and> (37::int) \<le> max 0 100 \<longrightarrow>
            37 \<in> fst ` set (dragApplications 0 (Fin 0) 100 (Fin 1))" by blast
  then have 4: "37 \<in> fst ` set (dragApplications 0 (Fin 0) 100 (Fin 1))" by simp
  from 1 2 3 4 show ?thesis by blast
qed

subsection \<open>The frame store\<close>

text \<open>
  The filter of \<^verbatim>\<open>deleteFrame\<close> drops the element at the cursor and nothing else.
\<close>

lemma filter_index_length:
  "length (filter (\<lambda>(i, f). int i \<noteq> c) (enumerate n xs)) =
     (if int n \<le> c \<and> c < int n + int (length xs) then length xs - 1 else length xs)"
proof (induction xs arbitrary: n)
  case Nil
  then show ?case by simp
next
  case (Cons x xs)
  show ?case using Cons.IH [of "Suc n"] by (cases xs) auto
qed

lemma filter_index_take_drop:
  "int n \<le> c \<Longrightarrow> c < int n + int (length xs) \<Longrightarrow>
   map snd (filter (\<lambda>(i, f). int i \<noteq> c) (enumerate n xs)) =
     take (nat c - n) xs @ drop (Suc (nat c - n)) xs"
proof (induction xs arbitrary: n)
  case Nil
  then show ?case by simp
next
  case (Cons x xs)
  show ?case
  proof (cases "int n = c")
    case True
    have "filter (\<lambda>(i, f). int i \<noteq> c) (enumerate (Suc n) xs) = enumerate (Suc n) xs"
      using True by (auto simp: filter_id_conv in_set_enumerate_eq)
    then show ?thesis using True by simp
  next
    case False
    then have b: "int (Suc n) \<le> c" "c < int (Suc n) + int (length xs)"
      using Cons.prems by auto
    then have e: "nat c - n = Suc (nat c - Suc n)" by arith
    from Cons.IH [OF b] False show ?thesis by (simp add: e)
  qed
qed

lemma deleteFrame_removes_current:
  assumes "cursor_valid st" and "1 < length (frames st)"
  shows "frames (deleteFrame st) =
           take (nat (currentIndex st)) (frames st) @ drop (Suc (nat (currentIndex st))) (frames st)"
  using assms filter_index_take_drop [of 0 "currentIndex st" "frames st"]
  by (simp add: deleteFrame_def cursor_valid_def Let_def)

text \<open>Every handler keeps the cursor inside the frame list.\<close>

lemma addFrame_valid: "cursor_valid st \<Longrightarrow> cursor_valid (addFrame st)"
  by (simp add: addFrame_def cursor_valid_def)

lemma deleteFrame_valid: "cursor_valid st \<Longrightarrow> cursor_valid (deleteFrame st)"
  by (auto simp: deleteFrame_def cursor_valid_def filter_index_length Let_def)

lemma duplicateFrame_valid: "cursor_valid st \<Longrightarrow> cursor_valid (duplicateFrame st)"
  by (simp add: duplicateFrame_def cursor_valid_def)

lemma onSelectFrame_valid: "cursor_valid st \<Longrightarrow> cursor_valid (onSelectFrame st index)"
  by (auto simp: onSelectFrame_def cursor_valid_def)

lemma handleWaveformChange_valid:
  "cursor_valid st \<Longrightarrow> handleWaveformChange c st newData = Some st' \<Longrightarrow> cursor_valid st'"
  by (auto simp: handleWaveformChange_def cursor_valid_def split: if_splits)

lemma morphBetween_valid: "cursor_valid st \<Longrightarrow> cursor_valid (morphBetween st)"
  by (simp add: morphBetween_def cursor_valid_def Let_def)

text \<open>
  From a state with a valid cursor, Add Frame and Delete behave as the store's
  contract says: a delete with one frame left and an add on a full table change
  nothing, the cursor is valid afterwards, and a delete puts it at the smaller of
  the old cursor and the new last index.
\<close>

lemma add_delete_keep_cursor_valid:
  assumes "cursor_valid st"
  shows "(length (frames st) = 1 \<longrightarrow> deleteFrame st = st)
       \<and> (length (frames st) = MAX_FRAMES \<longrightarrow> addFrame st = st)
       \<and> 0 \<le> currentIndex (addFrame st)
       \<and> currentIndex (addFrame st) < int (length (frames (addFrame st)))
       \<and> 0 \<le> currentIndex (deleteFrame st)
       \<and> currentIndex (deleteFrame st) < int (length (frames (deleteFrame st)))
       \<and> currentIndex (deleteFrame st) =
           min (currentIndex st) (int (length (frames (deleteFrame st))) - 1)"
proof -
  have a: "cursor_valid (addFrame st)" using assms by (rule addFrame_valid)
  have d: "cursor_valid (deleteFrame st)" using assms by (rule deleteFrame_valid)
  have m: "currentIndex (deleteFrame st) =
             min (currentIndex st) (int (length (frames (deleteFrame st))) - 1)"
    using assms by (auto simp: deleteFrame_def cursor_valid_def Let_def)
  have r1: "length (frames st) = 1 \<longrightarrow> deleteFrame st = st"
    by (simp add: deleteFrame_def)
  have r2: "length (frames st) = MAX_FRAMES \<longrightarrow> addFrame st = st"
    by (simp add: addFrame_def)
  from a d m r1 r2 show ?thesis by (simp add: cursor_valid_def)
qed

text \<open>
  A firing of the scan interval keeps a valid cursor valid when the length its
  callback holds is the length of the table.
\<close>

lemma scanTick_current_length_valid:
  assumes "cursor_valid st" and "scanTick (length (frames st)) st = Some st'"
  shows "cursor_valid st'"
proof -
  from assms(1) have c: "0 \<le> currentIndex st" "currentIndex st < int (length (frames st))"
    by (simp_all add: cursor_valid_def)
  then have n: "int (length (frames st)) \<noteq> 0" by linarith
  have s: "sgn (currentIndex st + 1) = 1" using c(1) by (simp add: sgn_if)
  from assms(2) n s c
  have "st' = st\<lparr>currentIndex := (currentIndex st + 1) mod int (length (frames st))\<rparr>"
    by (auto simp: scanTick_def js_rem_def)
  moreover have "0 < int (length (frames st))" using c by linarith
  ultimately show ?thesis by (simp add: cursor_valid_def)
qed


text \<open>
  C3 (as amended). In a state with a valid cursor and fewer than \<^verbatim>\<open>MAX_FRAMES\<close>
  frames, Duplicate appends a copy of the current frame as the new last frame and
  leaves the cursor where it is.
\<close>

theorem duplicateFrame_appends_copy:
  assumes "cursor_valid st" and "length (frames st) < MAX_FRAMES"
  shows "frames (duplicateFrame st) = frames st @ [frames st ! nat (currentIndex st)]
       \<and> currentIndex (duplicateFrame st) = currentIndex st"
  using assms
  by (simp add: duplicateFrame_def cursor_valid_def js_index_def newFloat32Array_def)

text \<open>The theorem at the initial state.\<close>

theorem duplicateFrame_appends_copy_witness:
  "frames (duplicateFrame initialStore) = [generateSine, generateSine]
   \<and> currentIndex (duplicateFrame initialStore) = 0"
  using duplicateFrame_appends_copy [of initialStore]
  by (simp add: cursor_valid_def initialStore_def MAX_FRAMES_def)

text \<open>
  Duplicate is not Add Frame: from the initial state the cursor is still 0 after
  Duplicate, while the new last index, where Add Frame puts the cursor, is 1.
\<close>

theorem duplicateFrame_cursor_counterexample:
  "currentIndex (duplicateFrame initialStore) = 0
   \<and> int (length (frames (duplicateFrame initialStore))) - 1 = 1
   \<and> currentIndex (addFrame initialStore) = 1"
  by (simp add: duplicateFrame_def addFrame_def initialStore_def MAX_FRAMES_def)

text \<open>
  Duplicate has no test against \<^verbatim>\<open>MAX_FRAMES\<close>: it always makes the list one frame
  longer, also from a full table.
\<close>

lemma duplicateFrame_no_limit:
  "length (frames (duplicateFrame st)) = length (frames st) + 1"
  by (simp add: duplicateFrame_def)

subsection \<open>Morphing\<close>

lemma morphBetween_nth:
  assumes "3 \<le> length (frames st)" and "k < length (frames st)"
  shows "frames (morphBetween st) ! k =
       (if k = 0 then frames st ! 0
        else if k = length (frames st) - 1 then frames st ! (length (frames st) - 1)
        else interpolateFrames (frames st ! 0) (frames st ! (length (frames st) - 1))
               (Fin (real k / real (length (frames st) - 1))))"
  using assms by (simp add: morphBetween_def Let_def)

text \<open>
  C7. On fewer than 3 frames Morph All changes nothing. On \<open>count\<close> frames, 3 or
  more, it keeps the number of frames and the cursor, leaves frame 0 and frame
  \<open>count - 1\<close> as they are and replaces every frame \<open>k\<close> in between by
  \<^verbatim>\<open>interpolateFrames(first, last, k / (count - 1))\<close>. On 5 frames, frame 2 becomes
  \<^verbatim>\<open>interpolateFrames(frame[0], frame[4], 0.5)\<close>.
\<close>

theorem morphBetween_linear:
  "(length (frames st) < 3 \<longrightarrow> morphBetween st = st)
   \<and> (3 \<le> length (frames st) \<longrightarrow>
        length (frames (morphBetween st)) = length (frames st)
      \<and> currentIndex (morphBetween st) = currentIndex st
      \<and> frames (morphBetween st) ! 0 = frames st ! 0
      \<and> frames (morphBetween st) ! (length (frames st) - 1) = frames st ! (length (frames st) - 1)
      \<and> (\<forall>k. 0 < k \<and> k < length (frames st) - 1 \<longrightarrow>
            frames (morphBetween st) ! k =
              interpolateFrames (frames st ! 0) (frames st ! (length (frames st) - 1))
                (Fin (real k / real (length (frames st) - 1)))))
   \<and> (length (frames st) = 5 \<longrightarrow>
        frames (morphBetween st) ! 2 = interpolateFrames (frames st ! 0) (frames st ! 4) (Fin 0.5))"
proof -
  have small: "length (frames st) < 3 \<longrightarrow> morphBetween st = st"
    by (simp add: morphBetween_def)
  have len: "3 \<le> length (frames st) \<longrightarrow>
      length (frames (morphBetween st)) = length (frames st) \<and>
      currentIndex (morphBetween st) = currentIndex st"
    by (simp add: morphBetween_def Let_def)
  have first: "3 \<le> length (frames st) \<longrightarrow> frames (morphBetween st) ! 0 = frames st ! 0"
  proof
    assume a: "3 \<le> length (frames st)"
    then have "0 < length (frames st)" by linarith
    from morphBetween_nth [OF a this] show "frames (morphBetween st) ! 0 = frames st ! 0" by simp
  qed
  have last: "3 \<le> length (frames st) \<longrightarrow>
      frames (morphBetween st) ! (length (frames st) - 1) = frames st ! (length (frames st) - 1)"
  proof
    assume a: "3 \<le> length (frames st)"
    then have "length (frames st) - 1 < length (frames st)" by linarith
    from morphBetween_nth [OF a this] a
    show "frames (morphBetween st) ! (length (frames st) - 1) = frames st ! (length (frames st) - 1)"
      by simp
  qed
  have mid: "3 \<le> length (frames st) \<longrightarrow> (\<forall>k. 0 < k \<and> k < length (frames st) - 1 \<longrightarrow>
            frames (morphBetween st) ! k =
              interpolateFrames (frames st ! 0) (frames st ! (length (frames st) - 1))
                (Fin (real k / real (length (frames st) - 1))))"
  proof (intro impI allI)
    fix k assume "3 \<le> length (frames st)" "0 < k \<and> k < length (frames st) - 1"
    then have "3 \<le> length (frames st)" "k < length (frames st)" "k \<noteq> 0"
      "k \<noteq> length (frames st) - 1" by linarith+
    from morphBetween_nth [OF this(1,2)] this(3,4) show "frames (morphBetween st) ! k =
              interpolateFrames (frames st ! 0) (frames st ! (length (frames st) - 1))
                (Fin (real k / real (length (frames st) - 1)))"
      by simp
  qed
  have five: "length (frames st) = 5 \<longrightarrow>
        frames (morphBetween st) ! 2 = interpolateFrames (frames st ! 0) (frames st ! 4) (Fin 0.5)"
  proof
    assume a: "length (frames st) = 5"
    then have "3 \<le> length (frames st)" "2 < length (frames st)" by linarith+
    from morphBetween_nth [OF this] a
    show "frames (morphBetween st) ! 2 = interpolateFrames (frames st ! 0) (frames st ! 4) (Fin 0.5)"
      by simp
  qed
  show ?thesis using small len first last mid five by blast
qed

text \<open>The theorem at a table of 5 frames and at a table of 2.\<close>

theorem morphBetween_linear_witness:
  "frames (morphBetween \<lparr>frames = [replicate FRAME_SIZE (Fin 1), generateSine, generateSine,
                                   generateSine, replicate FRAME_SIZE (Fin 0)],
                         currentIndex = 3\<rparr>) ! 2
     = interpolateFrames (replicate FRAME_SIZE (Fin 1)) (replicate FRAME_SIZE (Fin 0)) (Fin 0.5)
   \<and> frames (morphBetween \<lparr>frames = [replicate FRAME_SIZE (Fin 1), generateSine, generateSine,
                                   generateSine, replicate FRAME_SIZE (Fin 0)],
                         currentIndex = 3\<rparr>) ! 0 = replicate FRAME_SIZE (Fin 1)
   \<and> frames (morphBetween \<lparr>frames = [replicate FRAME_SIZE (Fin 1), generateSine, generateSine,
                                   generateSine, replicate FRAME_SIZE (Fin 0)],
                         currentIndex = 3\<rparr>) ! 4 = replicate FRAME_SIZE (Fin 0)
   \<and> morphBetween \<lparr>frames = [generateSine, generateSine], currentIndex = 1\<rparr>
     = \<lparr>frames = [generateSine, generateSine], currentIndex = 1\<rparr>"
  using
    morphBetween_linear [of "\<lparr>frames = [replicate FRAME_SIZE (Fin 1), generateSine, generateSine,
                                   generateSine, replicate FRAME_SIZE (Fin 0)],
                         currentIndex = 3\<rparr>"]
    morphBetween_linear [of "\<lparr>frames = [generateSine, generateSine], currentIndex = 1\<rparr>"]
  by (simp add: eval_nat_numeral)

end
